theory Spec2Isabelle
  imports Complex_Main
begin

section \<open>Values shared by both resolvers\<close>

text \<open>
  A Python float is either NaN or a finite double. A finite double is modelled by the
  real number it denotes, so the comparisons of the source (\<open><\<close>, \<open>>\<close>, \<open>!=\<close>) are
  exact; NaN compares false with everything, as in IEEE 754. The one rounded operation of
  the collinearity filter, numpy's mean, is a parameter of the model. Correlations and the
  tolerances of the source are finite, so the infinities are left out.
\<close>

datatype fl = NaN | Val real

datatype error = ValueError | IndexError | MissingLabel

definition isnull :: "fl \<Rightarrow> bool" where
  "isnull v = (v = NaN)"

fun fl_less :: "fl \<Rightarrow> fl \<Rightarrow> bool" where
  "fl_less (Val a) (Val b) = (a < b)"
| "fl_less _ _ = False"

fun fl_greater :: "fl \<Rightarrow> fl \<Rightarrow> bool" where
  "fl_greater (Val a) (Val b) = (a > b)"
| "fl_greater _ _ = False"

text \<open>\<open>np.maximum\<close>: the larger of the two, NaN as soon as one of them is NaN.\<close>

fun maximum :: "fl \<Rightarrow> fl \<Rightarrow> fl" where
  "maximum (Val a) (Val b) = Val (max a b)"
| "maximum _ _ = NaN"

text \<open>
  \<open>np.nanmean\<close>: the mean of the entries that are not NaN, NaN when there is none. The
  mean of the remaining doubles is computed by numpy, in double arithmetic and in the
  order of summation numpy chooses; it is not exact arithmetic, so it enters as the
  parameter \<open>mean\<close>, and what is proved of the functions below holds for every such
  function. \<open>exact_mean\<close> is the mean in exact arithmetic: it is numpy's mean on the lists
  whose sum and quotient need no rounding, as on the dyadic values of the examples.
\<close>

definition finite_vals :: "fl list \<Rightarrow> real list" where
  "finite_vals vs = concat (map (\<lambda>v. case v of NaN \<Rightarrow> [] | Val r \<Rightarrow> [r]) vs)"

definition nanmean :: "(real list \<Rightarrow> real) \<Rightarrow> fl list \<Rightarrow> fl" where
  "nanmean mean vs =
     (let xs = finite_vals vs
      in if xs = [] then NaN else Val (mean xs))"

definition exact_mean :: "real list \<Rightarrow> real" where
  "exact_mean xs = sum_list xs / real (length xs)"


section \<open>The correlation matrix: a labelled frame\<close>

text \<open>
  A pandas \<open>DataFrame\<close> with string labels on both axes, stored by column: entry \<open>j\<close> of
  \<open>data\<close> is the column labelled \<open>columns ! j\<close>, and its entry \<open>i\<close> belongs to the row
  labelled \<open>index ! i\<close>. A \<open>Series\<close> is a list of labelled values. Labels are looked up
  by first occurrence; the frames of interest carry each label once.
\<close>

record frame =
  index :: "string list"
  columns :: "string list"
  data :: "fl list list"

type_synonym series = "(string \<times> fl) list"

text \<open>\<open>c[nm]\<close>\<close>

definition getitem :: "frame \<Rightarrow> string \<Rightarrow> error + series" where
  "getitem f nm =
     (case map_of (zip (columns f) (data f)) nm of
        None \<Rightarrow> Inl MissingLabel
      | Some col \<Rightarrow> Inr (zip (index f) col))"

text \<open>\<open>Series.drop(nm)\<close>: the entries labelled \<open>nm\<close> go; an absent label is an error.\<close>

definition series_drop :: "series \<Rightarrow> string \<Rightarrow> error + series" where
  "series_drop s nm =
     (if nm \<notin> set (map fst s) then Inl MissingLabel
      else Inr (filter (\<lambda>e. fst e \<noteq> nm) s))"

text \<open>
  \<open>Series.sort_values(na_position='first')\<close>: the NaN entries first, then the others in
  ascending order of value. Entries of equal value keep their order here; pandas does not
  promise an order among them, and nothing proved below depends on it.
\<close>

fun the_val :: "fl \<Rightarrow> real" where
  "the_val (Val r) = r"
| "the_val NaN = 0"

definition sort_values :: "series \<Rightarrow> series" where
  "sort_values s =
     filter (\<lambda>e. isnull (snd e)) s @
     sort_key (\<lambda>e. the_val (snd e)) (filter (\<lambda>e. \<not> isnull (snd e)) s)"

text \<open>\<open>DataFrame.drop(nm, axis=1, inplace=True)\<close> and the same with \<open>axis=0\<close>.\<close>

definition drop_axis1 :: "frame \<Rightarrow> string \<Rightarrow> error + frame" where
  "drop_axis1 f nm =
     (if nm \<notin> set (columns f) then Inl MissingLabel
      else Inr (f\<lparr>columns := filter (\<lambda>l. l \<noteq> nm) (columns f),
                  data := map snd (filter (\<lambda>e. fst e \<noteq> nm) (zip (columns f) (data f)))\<rparr>))"

definition drop_axis0 :: "frame \<Rightarrow> string \<Rightarrow> error + frame" where
  "drop_axis0 f nm =
     (if nm \<notin> set (index f) then Inl MissingLabel
      else Inr (f\<lparr>index := filter (\<lambda>l. l \<noteq> nm) (index f),
                  data := map (\<lambda>col. map snd (filter (\<lambda>e. fst e \<noteq> nm) (zip (index f) col)))
                              (data f)\<rparr>))"


section \<open>filter_collinearity (select.py)\<close>

record MCFTuple =
  feature_x :: string
  feature_y :: string
  abs_corr :: fl
  mac :: fl

text \<open>
  The variables of the loop. \<open>cmat\<close> is the argument \<open>c\<close>, which the function changes in
  place: the caller sees its last value.
\<close>

record state =
  cmat :: frame
  drops :: "string list"
  macor :: "fl list"
  corrz :: "MCFTuple list"
  finished :: bool

datatype flow = Continue | Break

text \<open>Lines 365-366: the column without its own entry, sorted.\<close>

definition this_col_of :: "frame \<Rightarrow> string \<Rightarrow> error + series" where
  "this_col_of c nm =
     (case getitem c nm of
        Inl e \<Rightarrow> Inl e
      | Inr col \<Rightarrow>
         (case series_drop col nm of
            Inl e \<Rightarrow> Inl e
          | Inr col' \<Rightarrow> Inr (sort_values col')))"

text \<open>Line 382: the other column without its own entry.\<close>

definition that_col_of :: "frame \<Rightarrow> string \<Rightarrow> error + series" where
  "that_col_of c other_col_nm =
     (case getitem c other_col_nm of
        Inl e \<Rightarrow> Inl e
      | Inr col \<Rightarrow> series_drop col other_col_nm)"

text \<open>Line 372: the test that passes control to the next column.\<close>

definition skip_column :: "fl \<Rightarrow> fl \<Rightarrow> nat \<Rightarrow> bool" where
  "skip_column max_cor threshold n \<longleftrightarrow> isnull max_cor \<or> fl_less max_cor threshold \<or> n = 1"

text \<open>Lines 392-397: which of the two columns goes.\<close>

definition choose_drop :: "string \<Rightarrow> string \<Rightarrow> fl \<Rightarrow> fl \<Rightarrow> string" where
  "choose_drop nm other_col_nm mn_1 mn_2 =
     (if isnull mn_1 then other_col_nm
      else if isnull mn_2 then nm
      else if fl_greater mn_1 mn_2 then nm else other_col_nm)"

text \<open>Lines 400-401: the column, then the row.\<close>

definition drop_col_row :: "frame \<Rightarrow> string \<Rightarrow> error + frame" where
  "drop_col_row c drop_nm =
     (case drop_axis1 c drop_nm of
        Inl e \<Rightarrow> Inl e
      | Inr c' \<Rightarrow> drop_axis0 c' drop_nm)"

text \<open>Lines 404-411: the three lists grow by one entry each.\<close>

definition record_drop :: "state \<Rightarrow> frame \<Rightarrow> string \<Rightarrow> string \<Rightarrow> string \<Rightarrow> fl \<Rightarrow> fl \<Rightarrow> fl \<Rightarrow> state" where
  "record_drop s c' nm other_col_nm drop_nm max_cor mn_1 mn_2 =
     (let macor' = macor s @ [maximum mn_1 mn_2]
      in s\<lparr>cmat := c',
           drops := drops s @ [drop_nm],
           macor := macor',
           corrz := corrz s @
             [\<lparr>feature_x = drop_nm,
               feature_y = (if \<not> nm = drop_nm then nm else other_col_nm),
               abs_corr = max_cor,
               mac = last macor'\<rparr>]\<rparr>)"

text \<open>The body of the \<open>for\<close> loop at column \<open>nm\<close>, number \<open>i\<close> of the scan.\<close>

definition for_body :: "(real list \<Rightarrow> real) \<Rightarrow> fl \<Rightarrow> state \<Rightarrow> nat \<Rightarrow> string \<Rightarrow> error + state \<times> flow" where
  "for_body mean threshold s i nm =
     (case this_col_of (cmat s) nm of
        Inl e \<Rightarrow> Inl e
      | Inr this_col \<Rightarrow>
         (let this_col_nms = map fst this_col;
              this_col_a = map snd this_col
          in if this_col_a = [] then Inl IndexError
             else
               (let max_cor = last this_col_a
                in if skip_column max_cor threshold (length this_col_a)
                   then Inr (if int i = int (length (columns (cmat s))) - 1
                             then s\<lparr>finished := True\<rparr> else s, Continue)
                   else
                     (let other_col_nm = last this_col_nms
                      in case that_col_of (cmat s) other_col_nm of
                           Inl e \<Rightarrow> Inl e
                         | Inr that_col \<Rightarrow>
                            (let mn_1 = nanmean mean this_col_a;
                                 mn_2 = nanmean mean (map snd that_col);
                                 drop_nm = choose_drop nm other_col_nm mn_1 mn_2
                             in case drop_col_row (cmat s) drop_nm of
                                  Inl e \<Rightarrow> Inl e
                                | Inr c' \<Rightarrow>
                                   Inr (record_drop s c' nm other_col_nm drop_nm
                                          max_cor mn_1 mn_2, Break))))))"

text \<open>The \<open>for\<close> loop over \<open>enumerate(c.columns)\<close>; \<open>break\<close> leaves it.\<close>

fun for_loop :: "(real list \<Rightarrow> real) \<Rightarrow> fl \<Rightarrow> state \<Rightarrow> (nat \<times> string) list \<Rightarrow> error + state" where
  "for_loop mean threshold s [] = Inr s"
| "for_loop mean threshold s ((i, nm) # rest) =
     (case for_body mean threshold s i nm of
        Inl e \<Rightarrow> Inl e
      | Inr (s', Break) \<Rightarrow> Inr s'
      | Inr (s', Continue) \<Rightarrow> for_loop mean threshold s' rest)"

text \<open>
  The \<open>while not finished\<close> loop. Nothing in the source bounds it (\<open>finished\<close> is set
  only inside the body of the \<open>for\<close> loop), so the model is a partial function: \<open>None\<close> is
  a run that never returns.
\<close>

partial_function (option) while_loop ::
  "(real list \<Rightarrow> real) \<Rightarrow> fl \<Rightarrow> state \<Rightarrow> (error + state) option" where
  "while_loop mean threshold s =
     (if finished s then Some (Inr s)
      else (case for_loop mean threshold s (enumerate 0 (columns (cmat s))) of
              Inl e \<Rightarrow> Some (Inl e)
            | Inr s' \<Rightarrow> while_loop mean threshold s'))"

text \<open>
  The whole function. Besides the returned tuple the result holds the last value of the
  argument \<open>c\<close>, which is what the caller's matrix has become.
\<close>

definition filter_collinearity ::
  "(real list \<Rightarrow> real) \<Rightarrow> frame \<Rightarrow> fl \<Rightarrow> (error + frame \<times> string list \<times> fl list \<times> MCFTuple list) option" where
  "filter_collinearity mean c threshold =
     (if length (index c) \<noteq> length (columns c) then Some (Inl ValueError)
      else
        (case while_loop mean threshold
                \<lparr>cmat = c, drops = [], macor = [], corrz = [], finished = False\<rparr> of
           None \<Rightarrow> None
         | Some (Inl e) \<Rightarrow> Some (Inl e)
         | Some (Inr s) \<Rightarrow> Some (Inr (cmat s, drops s, macor s, corrz s))))"

subsection \<open>MulticollinearityFilterer.fit and its validation\<close>

text \<open>
  \<open>_validate_cols\<close> (select.py, lines 22-37): \<open>None\<close> passes, a list of fewer than two
  names is a \<open>ValueError\<close>.
\<close>

definition validate_cols :: "string list option \<Rightarrow> error + unit" where
  "validate_cols cols =
     (case cols of
        None \<Rightarrow> Inr ()
      | Some cs \<Rightarrow> if length cs < 2 then Inl ValueError else Inr ())"

text \<open>
  Modelled from the spec: \<open>_cols_if_none\<close> (skutil.utils.fixes) is not among the sources.
  By its name and the comment at its call in combos.py ("get a copy of the cols") it gives
  the frame's own column names when \<open>cols\<close> is \<open>None\<close> and a copy of \<open>cols\<close> otherwise.
\<close>

definition cols_if_none :: "string list \<Rightarrow> string list option \<Rightarrow> string list" where
  "cols_if_none X_columns cols = (case cols of None \<Rightarrow> X_columns | Some cs \<Rightarrow> cs)"

text \<open>
  \<open>MulticollinearityFilterer.fit\<close> (select.py, lines 514-525) from the point where
  \<open>validate_is_pd\<close> has accepted the frame. The frame is present by its column names; the
  correlation matrix of the chosen columns is computed by pandas and enters as the
  function \<open>corr\<close>; \<open>mean\<close> is numpy's mean, as in \<open>nanmean\<close>. The result is the triple assigned to \<open>drop_\<close>,
  \<open>mean_abs_correlations_\<close> and \<open>correlations_\<close>.
\<close>

definition MulticollinearityFilterer_fit ::
  "(real list \<Rightarrow> real) \<Rightarrow> (string list \<Rightarrow> frame) \<Rightarrow> string list \<Rightarrow> string list option \<Rightarrow> fl \<Rightarrow>
     (error + string list \<times> fl list \<times> MCFTuple list) option" where
  "MulticollinearityFilterer_fit mean corr X_columns self_cols threshold =
     (let cols = cols_if_none X_columns self_cols
      in case validate_cols (Some cols) of
           Inl e \<Rightarrow> Some (Inl e)
         | Inr _ \<Rightarrow>
            (let c = corr cols
             in case filter_collinearity mean c threshold of
                  None \<Rightarrow> None
                | Some (Inl e) \<Rightarrow> Some (Inl e)
                | Some (Inr (c', drop_, mean_abs_correlations_, correlations_)) \<Rightarrow>
                    Some (Inr (drop_, mean_abs_correlations_, correlations_))))"

subsection \<open>Notions used to state the properties of filter_collinearity\<close>

text \<open>The state in which the loop starts (lines 355-360).\<close>

definition initial :: "frame \<Rightarrow> state" where
  "initial c = \<lparr>cmat = c, drops = [], macor = [], corrz = [], finished = False\<rparr>"

text \<open>
  The frame that keeps, on both axes, the labels satisfying \<open>P\<close>, with their values.
\<close>

definition restrict_frame :: "(string \<Rightarrow> bool) \<Rightarrow> frame \<Rightarrow> frame" where
  "restrict_frame P f =
     \<lparr>index = filter P (index f),
      columns = filter P (columns f),
      data = map (\<lambda>col. map snd (filter (\<lambda>e. P (fst e)) (zip (index f) col)))
                 (map snd (filter (\<lambda>e. P (fst e)) (zip (columns f) (data f))))\<rparr>"

text \<open>
  A correlation matrix as \<open>DataFrame.corr\<close> builds it: the same distinct labels on both
  axes, and one value for each pair of labels.
\<close>

definition corr_matrix :: "frame \<Rightarrow> bool" where
  "corr_matrix c \<longleftrightarrow>
     distinct (columns c) \<and> index c = columns c \<and>
     length (data c) = length (columns c) \<and>
     list_all (\<lambda>col. length col = length (columns c)) (data c)"

text \<open>The detail records repeat the dropped names and the MACs, entry by entry.\<close>

definition detail_matches :: "state \<Rightarrow> bool" where
  "detail_matches s \<longleftrightarrow> map feature_x (corrz s) = drops s \<and> map mac (corrz s) = macor s"

text \<open>The working matrix is the matrix \<open>c0\<close> of the call without the dropped labels.\<close>

definition shrunk_from :: "frame \<Rightarrow> state \<Rightarrow> bool" where
  "shrunk_from c0 s \<longleftrightarrow> cmat s = restrict_frame (\<lambda>l. l \<notin> set (drops s)) c0"

definition drawn_from :: "frame \<Rightarrow> state \<Rightarrow> bool" where
  "drawn_from c0 s \<longleftrightarrow> shrunk_from c0 s \<and> set (drops s) \<subseteq> set (columns c0) \<and> distinct (drops s)"

text \<open>A state from which every scan runs without an error.\<close>

definition good :: "state \<Rightarrow> bool" where
  "good s \<longleftrightarrow> corr_matrix (cmat s) \<and> 2 \<le> length (columns (cmat s))"

text \<open>
  A matrix of three features in which \<open>a\<close> and \<open>b\<close> correlate at 0.875 and both
  correlate with \<open>c\<close> at 0.5, so that \<open>a\<close> and \<open>b\<close> have the same mean absolute
  correlation.
\<close>

definition corr_abc :: frame where
  "corr_abc =
     \<lparr>index = [''a'', ''b'', ''c''], columns = [''a'', ''b'', ''c''],
      data = [[Val 1, Val (7/8), Val (1/2)],
              [Val (7/8), Val 1, Val (1/2)],
              [Val (1/2), Val (1/2), Val 1]]\<rparr>"

section \<open>The linear-combination resolver (combos.py)\<close>

text \<open>
  A two-dimensional numpy array is held by column: the list has one entry for each
  column, so \<open>shape[1]\<close> is its length, and \<open>R[:r, :r]\<close> takes the first \<open>r\<close> columns and
  of each its first \<open>r\<close> entries.
\<close>

type_synonym ndarray = "fl list list"

text \<open>
  \<open>QRDecomposition\<close> (skutil.odr) is not among the sources. An object of the class is the
  record of what \<open>_enum_lc\<close> reads from it: the factor \<open>R\<close>, the rank, the pivot vector and
  the method \<open>get_coef\<close>, which gives no result (\<open>None\<close>) or the matrix of regression
  coefficients. The class itself, which builds the object from a matrix, is a parameter
  \<open>QR\<close> of the functions below, so that what is proved of them holds for every
  decomposition.
\<close>

record QRDecomposition =
  get_R :: ndarray
  get_rank :: nat
  pivot :: "nat list"
  get_coef :: "ndarray \<Rightarrow> ndarray option"

text \<open>
  Line 179, \<open>b[np.abs(b) < 1e-6] = 0\<close>. The literal \<open>1e-6\<close> and a coefficient "exactly
  1e-6" are the same double, modelled by the same real number.
\<close>

fun fl_abs :: "fl \<Rightarrow> fl" where
  "fl_abs (Val r) = Val \<bar>r\<bar>"
| "fl_abs NaN = NaN"

definition zap_value :: "fl \<Rightarrow> fl" where
  "zap_value v = (if fl_less (fl_abs v) (Val (1 / 1000000)) then Val 0 else v)"

definition zap :: "ndarray \<Rightarrow> ndarray" where
  "zap b = map (map zap_value) b"

text \<open>
  Lines 185-189: the entry of the dictionary for the dependent column \<open>i\<close>. \<open>b[:, i]\<close> is
  column \<open>i\<close> of \<open>b\<close>; \<open>row_idcs[b[:, i] != 0]\<close> are the rows where it is not zero (NaN is
  not zero). An index outside \<open>pivot\<close> or \<open>b\<close> raises \<open>IndexError\<close>. \<open>flatten_all\<close> makes
  one flat list of the nested one.
\<close>

definition dependency :: "nat list \<Rightarrow> nat \<Rightarrow> ndarray \<Rightarrow> nat \<Rightarrow> error + nat list" where
  "dependency piv rank b i =
     (if length piv \<le> rank + i \<or> length b \<le> i then Inl IndexError
      else
        (let rows = filter (\<lambda>k. b ! i ! k \<noteq> Val 0) [0..<length (b ! i)]
         in if list_ex (\<lambda>k. length piv \<le> k) rows then Inl IndexError
            else Inr (piv ! (rank + i) # map (\<lambda>k. piv ! k) rows)))"

text \<open>The results of a comprehension, up to the first error.\<close>

fun collect :: "(error + 'a) list \<Rightarrow> error + 'a list" where
  "collect [] = Inr []"
| "collect (Inl e # rs) = Inl e"
| "collect (Inr v # rs) = (case collect rs of Inl e \<Rightarrow> Inl e | Inr vs \<Rightarrow> Inr (v # vs))"

text \<open>
  \<open>_enum_lc\<close> (lines 152-194). The dictionary \<open>d\<close> has the keys \<open>0, 1, \<dots>\<close> in this
  order and is the list of its values.
\<close>

definition enum_lc ::
  "(ndarray \<Rightarrow> QRDecomposition) \<Rightarrow> QRDecomposition \<Rightarrow> error + nat list list option" where
  "enum_lc QR decomp =
     (let R = get_R decomp;
          n_features = length R;
          rank = get_rank decomp
      in if \<not> (rank = n_features) then
           (let piv = pivot decomp;
                X = map (take rank) (take rank R);
                Y = map (take rank) (drop rank R);
                new_qr = QR X;
                b = get_coef new_qr Y
            in case b of
                 None \<Rightarrow> Inr None
               | Some b \<Rightarrow>
                  (let b = zap b
                   in case collect (map (dependency piv rank b) [0..<length Y]) of
                        Inl e \<Rightarrow> Inl e
                      | Inr d \<Rightarrow> Inr (Some d)))
         else Inr None)"

text \<open>The two blocks of \<open>R\<close> that \<open>_enum_lc\<close> passes on (lines 171-172).\<close>

definition indep_block :: "QRDecomposition \<Rightarrow> ndarray" where
  "indep_block decomp = map (take (get_rank decomp)) (take (get_rank decomp) (get_R decomp))"

definition dep_block :: "QRDecomposition \<Rightarrow> ndarray" where
  "dep_block decomp = map (take (get_rank decomp)) (drop (get_rank decomp) (get_R decomp))"

text \<open>
  Line 130: the first index of every entry, collected in a set and made an array. The
  order in which Python lists a set is not fixed by the language; the model lists it in
  ascending order, and nothing below depends on the order.
\<close>

definition first_indices :: "nat list list \<Rightarrow> nat list" where
  "first_indices lc_list = sort (remdups (map hd lc_list))"

text \<open>\<open>np.delete(xs, bad)\<close> along the column axis: the entries at the positions in \<open>bad\<close> go.\<close>

definition np_delete :: "'a list \<Rightarrow> nat list \<Rightarrow> 'a list" where
  "np_delete xs bad = map snd (filter (\<lambda>e. fst e \<notin> set bad) (enumerate 0 xs))"

text \<open>Deleting at least one position that exists makes the list shorter.\<close>

lemma length_np_delete:
  assumes "bad \<noteq> []" "\<not> list_ex (\<lambda>j. length xs \<le> j) bad"
  shows "length (np_delete xs bad) < length xs"
proof -
  from assms(1) obtain j where jb: "j \<in> set bad" by (cases bad) auto
  with assms(2) have jl: "j < length xs" by (auto simp: list_ex_iff)
  have m: "(j, xs ! j) \<in> set (enumerate 0 xs)"
    using jl by (simp add: in_set_enumerate_eq)
  have n: "\<not> fst (j, xs ! j) \<notin> set bad" using jb by simp
  have "length (filter (\<lambda>e. fst e \<notin> set bad) (enumerate 0 xs)) < length (enumerate 0 xs)"
    using m n by (rule length_filter_less)
  then show ?thesis by (simp add: np_delete_def)
qed

text \<open>
  The loop of \<open>fit_transform\<close> (lines 125-143), entered with the first call of \<open>_enum_lc\<close>.
  \<open>cols[bad]\<close> raises \<open>IndexError\<close> for an index outside \<open>cols\<close>, and for an empty \<open>bad\<close>,
  which numpy builds as an array of floats. The last argument counts the passes made; it
  is not a variable of the source and is returned beside the outcome.
\<close>

function resolve ::
  "(ndarray \<Rightarrow> QRDecomposition) \<Rightarrow> ndarray \<Rightarrow> string list \<Rightarrow> string list \<Rightarrow> nat \<Rightarrow>
     nat \<times> (error + ndarray \<times> string list \<times> string list)" where
  "resolve QR x cols drop_list passes =
     (case enum_lc QR (QR x) of
        Inl e \<Rightarrow> (passes, Inl e)
      | Inr None \<Rightarrow> (passes, Inr (x, cols, drop_list))
      | Inr (Some lc_list) \<Rightarrow>
         (let bad = first_indices lc_list
          in if bad = [] \<or> list_ex (\<lambda>j. length cols \<le> j) bad then (passes, Inl IndexError)
             else
               (let bad_nms = map (\<lambda>j. cols ! j) bad
                in resolve QR (np_delete x bad) (np_delete cols bad) (drop_list @ bad_nms)
                     (Suc passes))))"
  by pat_completeness auto

termination
proof (relation "measure (\<lambda>(QR, x, cols, drop_list, passes). length cols)", goal_cases)
  case 1
  show ?case by simp
next
  case 2
  then show ?case by (simp add: length_np_delete)
qed

text \<open>
  \<open>X[cols].as_matrix()\<close> (line 121) and \<open>X.drop(self.drop_, axis=1)\<close> (line 147).
\<close>

definition getitems :: "frame \<Rightarrow> string list \<Rightarrow> error + ndarray" where
  "getitems X cols =
     collect (map (\<lambda>nm. case map_of (zip (columns X) (data X)) nm of
                           None \<Rightarrow> Inl MissingLabel
                         | Some col \<Rightarrow> Inr col) cols)"

definition drop_columns :: "frame \<Rightarrow> string list \<Rightarrow> error + frame" where
  "drop_columns f nms =
     (if list_ex (\<lambda>nm. nm \<notin> set (columns f)) nms then Inl MissingLabel
      else Inr (f\<lparr>columns := filter (\<lambda>l. l \<notin> set nms) (columns f),
                  data := map snd (filter (\<lambda>e. fst e \<notin> set nms) (zip (columns f) (data f)))\<rparr>))"

text \<open>Lines 146-149: the drop list without repetitions, and the frame without its columns.\<close>

definition finish :: "frame \<Rightarrow> string list \<Rightarrow> error + frame \<times> string list" where
  "finish X drop_list =
     (let drop_set = remdups drop_list
      in case drop_columns X drop_set of
           Inl e \<Rightarrow> Inl e
         | Inr dropped \<Rightarrow> Inr (dropped, drop_set))"

text \<open>
  \<open>LinearCombinationFilterer.fit_transform\<close> (lines 112-149) from the point where
  \<open>validate_is_pd\<close> has accepted the frame, with \<open>as_df\<close> at its default: the result is the
  frame returned and the attribute \<open>drop_\<close>.
\<close>

definition fit_transform ::
  "(ndarray \<Rightarrow> QRDecomposition) \<Rightarrow> frame \<Rightarrow> string list option \<Rightarrow> error + frame \<times> string list" where
  "fit_transform QR X self_cols =
     (case validate_cols self_cols of
        Inl e \<Rightarrow> Inl e
      | Inr u \<Rightarrow>
         (let cols = cols_if_none (columns X) self_cols
          in case getitems X cols of
               Inl e \<Rightarrow> Inl e
             | Inr x \<Rightarrow>
                (case snd (resolve QR x cols [] 0) of
                   Inl e \<Rightarrow> Inl e
                 | Inr r \<Rightarrow> finish X (snd (snd r)))))"

subsection \<open>A decomposition in exact arithmetic\<close>

text \<open>
  Modelled from the spec: \<open>QRDecomposition\<close> (skutil.odr) is not among the sources. The
  specification describes it as a rank-revealing decomposition: the rank is the number of
  linearly independent columns, the pivot is an ordering of the column indices in which
  the first \<open>rank\<close> columns are independent and the others depend on them, the regression
  of a dependent column on the independent ones is ordinary least squares, and it "yields
  no result" when the independent set is empty. \<open>qr_spec\<close> computes this in exact
  arithmetic: the columns are scanned from the left, a column is independent when its
  residual against the orthogonal basis of the earlier independent columns is not zero,
  and the dependent columns are moved to the end. The factor \<open>R\<close> holds the coefficients of
  the columns on that basis; it differs from the factor of an orthonormal basis by the
  scale of its rows, which changes neither its shape nor the regression coefficients.
\<close>

definition dot :: "real list \<Rightarrow> real list \<Rightarrow> real" where
  "dot u v = sum_list (map (\<lambda>p. fst p * snd p) (zip u v))"

definition coeff :: "real list \<Rightarrow> real list \<Rightarrow> real" where
  "coeff q v = dot q v / dot q q"

definition residual :: "real list list \<Rightarrow> real list \<Rightarrow> real list" where
  "residual Q v = foldl (\<lambda>r q. map (\<lambda>p. fst p - coeff q v * snd p) (zip r q)) v Q"

fun independent_scan ::
  "real list list \<Rightarrow> nat list \<Rightarrow> nat list \<Rightarrow> (nat \<times> real list) list \<Rightarrow>
     real list list \<times> nat list \<times> nat list" where
  "independent_scan Q ind dep [] = (Q, ind, dep)"
| "independent_scan Q ind dep ((j, v) # rest) =
     (let r = residual Q v
      in if list_all (\<lambda>e. e = 0) r then independent_scan Q ind (dep @ [j]) rest
         else independent_scan (Q @ [r]) (ind @ [j]) dep rest)"

fun back_substitute :: "(nat \<Rightarrow> nat \<Rightarrow> real) \<Rightarrow> real list \<Rightarrow> nat list \<Rightarrow> real list" where
  "back_substitute T c [] = []"
| "back_substitute T c (k # ks) =
     (let rest = back_substitute T c ks
      in (c ! k - sum_list (map (\<lambda>p. T k (fst p) * snd p) (zip ks rest))) # rest)"

text \<open>
  Modelled from the spec: the object that \<open>QRDecomposition\<close> builds from a matrix. \<open>get_coef\<close>
  solves the triangular system for the coefficients of each column of its argument on the
  independent columns, and gives \<open>None\<close> when the rank is 0.
\<close>

definition qr_spec :: "ndarray \<Rightarrow> QRDecomposition" where
  "qr_spec x =
     (let cs = map (map the_val) x;
          (Q, ind, dep) = independent_scan [] [] [] (enumerate 0 cs);
          piv = ind @ dep;
          rank = length ind;
          R = map (\<lambda>j. map (\<lambda>q. coeff q (cs ! j)) Q @ replicate (length x - rank) 0) piv
      in \<lparr>get_R = map (map Val) R,
          get_rank = rank,
          pivot = piv,
          get_coef = (\<lambda>Y. if rank = 0 then None
                           else Some (map (\<lambda>y. map Val
                                  (back_substitute (\<lambda>k j. R ! j ! k)
                                     (map (\<lambda>q. coeff q (map the_val y)) Q) [0..<rank])) Y))\<rparr>)"

text \<open>
  Frames for the examples: \<open>c = 2 a + 3 b\<close>; two columns of zeros; \<open>c = a / 1000000 + b\<close>;
  two independent columns.
\<close>

definition X_abc :: frame where
  "X_abc = \<lparr>index = [''0'', ''1'', ''2''], columns = [''a'', ''b'', ''c''],
     data = [[Val 1, Val 2, Val 3], [Val 1, Val 0, Val 1], [Val 5, Val 4, Val 9]]\<rparr>"


definition X_tol :: frame where
  "X_tol = \<lparr>index = [''0'', ''1''], columns = [''a'', ''b'', ''c''],
     data = [[Val 1, Val 0], [Val 0, Val 1], [Val (1 / 1000000), Val 1]]\<rparr>"

definition X_ab :: frame where
  "X_ab = \<lparr>index = [''0'', ''1''], columns = [''a'', ''b''],
     data = [[Val 1, Val 0], [Val 1, Val 1]]\<rparr>"

section \<open>H2OFScorePercentileSelector._select_features (one_way_fs.py)\<close>

text \<open>
  \<open>_clean_nans\<close> (lines 26-29): every NaN score becomes the least finite double,
  \<open>np.finfo(float64).min\<close>.
\<close>

definition finfo_min :: real where
  "finfo_min = - ((2 - 1 / 2 ^ 52) * 2 ^ 1023)"

definition clean_nans :: "fl list \<Rightarrow> real list" where
  "clean_nans scores = map (\<lambda>v. case v of NaN \<Rightarrow> finfo_min | Val r \<Rightarrow> r) scores"

text \<open>
  A Python slice \<open>xs[:k]\<close>: the first \<open>k\<close> entries, and for a negative \<open>k\<close> all but the last
  \<open>-k\<close>.
\<close>

definition slice_to :: "'a list \<Rightarrow> int \<Rightarrow> 'a list" where
  "slice_to xs k = (if 0 \<le> k then take (nat k) xs else take (nat (int (length xs) + k)) xs)"

text \<open>\<open>int(n * percentile / 100)\<close>: the quotient, rounded towards zero.\<close>

definition max_feats_of :: "nat \<Rightarrow> int \<Rightarrow> int" where
  "max_feats_of n percentile =
     (let q = int n * percentile
      in if 0 \<le> q then q div 100 else - ((- q) div 100))"

text \<open>
  \<open>_select_features\<close> (lines 534-578). The percentile of the scores is computed by
  \<open>scipy.stats.scoreatpercentile\<close>, which is outside the repository and enters as the
  parameter \<open>scoreatpercentile\<close>; a NaN threshold is above no score and equal to none. The
  result is the list of the features to drop; indexing the names with a mask of another
  length raises \<open>IndexError\<close>.
\<close>

definition select_features ::
  "(real list \<Rightarrow> int \<Rightarrow> fl) \<Rightarrow> int \<Rightarrow> fl list \<Rightarrow> string list \<Rightarrow> error + string list" where
  "select_features scoreatpercentile percentile all_scores feature_names =
     (if percentile = 100 then Inr []
      else if percentile = 0 then Inr feature_names
      else
        (let all_scores = clean_nans all_scores;
             thresh = scoreatpercentile all_scores (100 - percentile);
             mask = map (\<lambda>s. fl_greater (Val s) thresh) all_scores;
             ties = filter (\<lambda>i. Val (all_scores ! i) = thresh) [0..<length all_scores];
             mask = (if ties \<noteq> [] then
                       (let max_feats = max_feats_of (length all_scores) percentile;
                            kept_ties =
                              slice_to ties (max_feats - int (length (filter id mask)))
                        in map (\<lambda>i. mask ! i \<or> i \<in> set kept_ties) [0..<length mask])
                     else mask);
             mask = map Not mask
         in if length mask \<noteq> length feature_names then Inl IndexError
            else Inr (map fst (filter snd (zip feature_names mask)))))"

section \<open>Lemmas about frames and the collinearity loop\<close>

lemma zip_filter_filter:
  "map snd (filter (\<lambda>e. P (fst e)) (zip (filter Q xs) (map g (map snd (filter (\<lambda>e. Q (fst e)) (zip xs ys))))))
   = map g (map snd (filter (\<lambda>e. Q (fst e) \<and> P (fst e)) (zip xs ys)))"
proof (induction xs arbitrary: ys)
  case Nil
  then show ?case by simp
next
  case (Cons x xs)
  then show ?case by (cases ys) auto
qed

lemma zip_filter_filter_id:
  "map snd (filter (\<lambda>e. P (fst e)) (zip (filter Q xs) (map snd (filter (\<lambda>e. Q (fst e)) (zip xs ys)))))
   = map snd (filter (\<lambda>e. Q (fst e) \<and> P (fst e)) (zip xs ys))"
  using zip_filter_filter[where g = "\<lambda>x. x"] by simp

lemma restrict_restrict:
  "restrict_frame P (restrict_frame Q f) = restrict_frame (\<lambda>l. Q l \<and> P l) f"
proof -
  let ?g = "\<lambda>col. map snd (filter (\<lambda>e. Q (fst e)) (zip (index f) col))"
  let ?h = "\<lambda>col. map snd (filter (\<lambda>e. P (fst e)) (zip (filter Q (index f)) col))"
  let ?k = "\<lambda>col. map snd (filter (\<lambda>e. Q (fst e) \<and> P (fst e)) (zip (index f) col))"
  let ?X = "map snd (filter (\<lambda>e. Q (fst e)) (zip (columns f) (data f)))"
  have a: "map snd (filter (\<lambda>e. P (fst e)) (zip (filter Q (columns f)) (map ?g ?X)))
           = map ?g (map snd (filter (\<lambda>e. Q (fst e) \<and> P (fst e)) (zip (columns f) (data f))))"
    by (rule zip_filter_filter)
  have c: "map ?h (map ?g Y) = map ?k Y" for Y
    by (simp add: zip_filter_filter_id)
  show ?thesis
    by (simp add: restrict_frame_def a c del: map_map)
qed

lemma drop_col_row_restrict:
  "drop_col_row c nm = Inr c' \<Longrightarrow> c' = restrict_frame (\<lambda>l. l \<noteq> nm) c"
  by (auto simp: drop_col_row_def drop_axis1_def drop_axis0_def restrict_frame_def split: sum.splits if_splits)

lemma map_fst_filter_zip:
  "length xs = length ys \<Longrightarrow> map fst (filter (\<lambda>e. P (fst e)) (zip xs ys)) = filter P xs"
  by (induction xs ys rule: list_induct2) auto

lemma length_filter_zip:
  "length xs = length ys \<Longrightarrow> length (filter (\<lambda>e. P (fst e)) (zip xs ys)) = length (filter P xs)"
  using map_fst_filter_zip[of xs ys P] by (metis length_map)

lemma set_snd_filter_zip:
  "set (map snd (filter (\<lambda>e. P (fst e)) (zip xs ys))) \<subseteq> set ys"
  by (auto dest: set_zip_rightD)

lemma length_filter_neq:
  "distinct xs \<Longrightarrow> x \<in> set xs \<Longrightarrow> length (filter (\<lambda>l. l \<noteq> x) xs) = length xs - 1"
proof (induction xs)
  case Nil
  then show ?case by simp
next
  case (Cons a xs)
  show ?case
  proof (cases "a = x")
    case True
    with Cons.prems have "x \<notin> set xs" by simp
    then have "filter (\<lambda>l. l \<noteq> x) xs = xs" by (auto simp: filter_id_conv)
    with True show ?thesis by simp
  next
    case False
    with Cons.prems have "x \<in> set xs" "distinct xs" by auto
    with Cons.IH have "length (filter (\<lambda>l. l \<noteq> x) xs) = length xs - 1" by simp
    moreover from \<open>x \<in> set xs\<close> have "0 < length xs" by (cases xs) auto
    ultimately show ?thesis using False by simp
  qed
qed

lemma corr_matrix_restrict:
  assumes "corr_matrix c"
  shows "corr_matrix (restrict_frame P c)"
proof -
  from assms have d: "distinct (columns c)" and i: "index c = columns c"
    and l: "length (data c) = length (columns c)"
    and r: "\<forall>col \<in> set (data c). length col = length (columns c)"
    by (auto simp: corr_matrix_def list_all_iff)
  have "length (data (restrict_frame P c)) = length (filter P (columns c))"
    using l by (simp add: restrict_frame_def length_filter_zip)
  moreover have "length col = length (filter P (columns c))"
    if "col \<in> set (data (restrict_frame P c))" for col
  proof -
    from that obtain col0 where c0: "col0 \<in> set (data c)"
      and e: "col = map snd (filter (\<lambda>e. P (fst e)) (zip (index c) col0))"
      using set_snd_filter_zip[of P "columns c" "data c"]
      by (auto simp: restrict_frame_def)
    with r i show ?thesis by (simp add: length_filter_zip)
  qed
  ultimately show ?thesis
    using d i by (simp add: corr_matrix_def list_all_iff restrict_frame_def)
qed

lemma length_sort_values: "length (sort_values s) = length s"
  using sum_length_filter_compl[of "\<lambda>e. isnull (snd e)" s]
  by (simp add: sort_values_def)

lemma set_sort_values: "set (sort_values s) = set s"
  by (auto simp: sort_values_def)

lemma getitem_corr_matrix:
  assumes "corr_matrix c" "nm \<in> set (columns c)"
  shows "\<exists>col. getitem c nm = Inr (zip (columns c) col) \<and> length col = length (columns c)"
proof -
  from assms have l: "length (columns c) = length (data c)"
    and r: "\<forall>col \<in> set (data c). length col = length (columns c)"
    and i: "index c = columns c"
    by (auto simp: corr_matrix_def list_all_iff)
  from l assms(2) obtain col where m: "map_of (zip (columns c) (data c)) nm = Some col"
    using map_of_zip_is_Some[of "columns c" "data c" nm] by auto
  then have "col \<in> set (data c)"
    by (meson map_of_SomeD set_zip_rightD)
  with r have lc: "length col = length (columns c)" by simp
  have "getitem c nm = Inr (zip (columns c) col)"
    using m i by (simp add: getitem_def)
  with lc show ?thesis by blast
qed

lemma series_drop_zip:
  assumes "length col = length xs" "nm \<in> set xs"
  shows "series_drop (zip xs col) nm = Inr (filter (\<lambda>e. fst e \<noteq> nm) (zip xs col))"
  using assms by (simp add: series_drop_def)

lemma this_col_of_corr_matrix:
  assumes "corr_matrix c" "nm \<in> set (columns c)"
  shows "\<exists>tc. this_col_of c nm = Inr tc \<and> length tc = length (columns c) - 1
           \<and> set (map fst tc) = set (columns c) - {nm}"
proof -
  from getitem_corr_matrix[OF assms] obtain col where
    g: "getitem c nm = Inr (zip (columns c) col)" and l: "length col = length (columns c)"
    by blast
  let ?d = "filter (\<lambda>e. fst e \<noteq> nm) (zip (columns c) col)"
  have sd: "series_drop (zip (columns c) col) nm = Inr ?d"
    using l assms(2) by (simp add: series_drop_zip)
  have t: "this_col_of c nm = Inr (sort_values ?d)"
    by (simp add: this_col_of_def g sd)
  have dist: "distinct (columns c)" using assms(1) by (simp add: corr_matrix_def)
  have "length ?d = length (columns c) - 1"
    using l length_filter_zip[of "columns c" col "\<lambda>l. l \<noteq> nm"] length_filter_neq[OF dist assms(2)]
    by simp
  moreover have "map fst ?d = filter (\<lambda>l. l \<noteq> nm) (columns c)"
    using l by (simp add: map_fst_filter_zip[of "columns c" col "\<lambda>l. l \<noteq> nm"])
  then have "set (map fst ?d) = set (columns c) - {nm}" by auto
  ultimately show ?thesis
    using t by (auto simp: length_sort_values set_sort_values)
qed

lemma that_col_of_corr_matrix:
  assumes "corr_matrix c" "nm \<in> set (columns c)"
  shows "\<exists>tc. that_col_of c nm = Inr tc"
proof -
  from getitem_corr_matrix[OF assms] obtain col where
    g: "getitem c nm = Inr (zip (columns c) col)" and l: "length col = length (columns c)"
    by blast
  then show ?thesis
    using assms(2) by (simp add: that_col_of_def series_drop_zip)
qed

lemma drop_col_row_corr_matrix:
  assumes "corr_matrix c" "nm \<in> set (columns c)"
  shows "drop_col_row c nm = Inr (restrict_frame (\<lambda>l. l \<noteq> nm) c)"
proof -
  from assms have "nm \<in> set (index c)" by (simp add: corr_matrix_def)
  with assms(2) obtain c' where "drop_col_row c nm = Inr c'"
    by (auto simp: drop_col_row_def drop_axis1_def drop_axis0_def)
  then show ?thesis using drop_col_row_restrict by simp
qed

lemma for_body_Inr_cases:
  assumes "for_body mean t s i nm = Inr (s', fw)"
  obtains (skip) tc where
      "this_col_of (cmat s) nm = Inr tc" "tc \<noteq> []"
      "skip_column (snd (last tc)) t (length tc)"
      "fw = Continue"
      "s' = (if int i = int (length (columns (cmat s))) - 1 then s\<lparr>finished := True\<rparr> else s)"
  | (drop) tc oc c' where
      "this_col_of (cmat s) nm = Inr tc" "tc \<noteq> []"
      "\<not> skip_column (snd (last tc)) t (length tc)"
      "that_col_of (cmat s) (fst (last tc)) = Inr oc"
      "drop_col_row (cmat s)
         (choose_drop nm (fst (last tc)) (nanmean mean (map snd tc)) (nanmean mean (map snd oc))) = Inr c'"
      "fw = Break"
      "s' = record_drop s c' nm (fst (last tc))
              (choose_drop nm (fst (last tc)) (nanmean mean (map snd tc)) (nanmean mean (map snd oc)))
              (snd (last tc)) (nanmean mean (map snd tc)) (nanmean mean (map snd oc))"
  using assms unfolding for_body_def
  by (auto simp: Let_def last_map split: sum.splits if_splits)

lemma for_body_skip:
  assumes "this_col_of (cmat s) nm = Inr tc" "tc \<noteq> []"
      "skip_column (snd (last tc)) t (length tc)"
  shows "for_body mean t s i nm =
      Inr (if int i = int (length (columns (cmat s))) - 1 then s\<lparr>finished := True\<rparr> else s, Continue)"
  using assms by (simp add: for_body_def Let_def last_map)

lemma for_body_drop:
  assumes "this_col_of (cmat s) nm = Inr tc" "tc \<noteq> []"
      "\<not> skip_column (snd (last tc)) t (length tc)"
      "that_col_of (cmat s) (fst (last tc)) = Inr oc"
      "drop_col_row (cmat s)
         (choose_drop nm (fst (last tc)) (nanmean mean (map snd tc)) (nanmean mean (map snd oc))) = Inr c'"
  shows "for_body mean t s i nm =
      Inr (record_drop s c' nm (fst (last tc))
              (choose_drop nm (fst (last tc)) (nanmean mean (map snd tc)) (nanmean mean (map snd oc)))
              (snd (last tc)) (nanmean mean (map snd tc)) (nanmean mean (map snd oc)), Break)"
  using assms by (simp add: for_body_def Let_def last_map)

lemma for_loop_invariant:
  assumes step: "\<And>s i nm s' fw. I s \<Longrightarrow> for_body mean t s i nm = Inr (s', fw) \<Longrightarrow> I s'"
  shows "I s \<Longrightarrow> for_loop mean t s xs = Inr s' \<Longrightarrow> I s'"
proof (induction xs arbitrary: s)
  case Nil
  then show ?case by simp
next
  case (Cons x xs)
  obtain i nm where x: "x = (i, nm)" by (cases x)
  from Cons.prems(2) obtain s1 fw where b: "for_body mean t s i nm = Inr (s1, fw)"
    by (auto simp: x split: sum.splits)
  from step[OF Cons.prems(1) b] have i1: "I s1" .
  show ?case
  proof (cases fw)
    case Continue
    with Cons.prems(2) b have "for_loop mean t s1 xs = Inr s'" by (simp add: x)
    with Cons.IH i1 show ?thesis by blast
  next
    case Break
    with Cons.prems(2) b have "s' = s1" by (simp add: x)
    with i1 show ?thesis by simp
  qed
qed

lemma while_loop_invariant:
  assumes step: "\<And>mean t s i nm s' fw. I s \<Longrightarrow> for_body mean t s i nm = Inr (s', fw) \<Longrightarrow> I s'"
  assumes run: "while_loop mean t s = Some r"
  shows "\<forall>s'. r = Inr s' \<longrightarrow> I s \<longrightarrow> I s'"
proof (rule while_loop.raw_induct
    [where P = "\<lambda>mean t s r. \<forall>s'. r = Inr s' \<longrightarrow> I s \<longrightarrow> I s'", OF _ run], goal_cases)
  case (1 wl mean t s r)
  show ?case
  proof (cases "finished s")
    case True
    with 1(2) show ?thesis by auto
  next
    case False
    show ?thesis
    proof (cases "for_loop mean t s (enumerate 0 (columns (cmat s)))")
      case (Inl e)
      with False 1(2) show ?thesis by auto
    next
      case (Inr s1)
      with False 1(2) have w: "wl mean t s1 = Some r" by simp
      have "I s \<Longrightarrow> I s1"
        using for_loop_invariant[where I = I and mean = mean and t = t and s = s and s' = s1] step Inr by blast
      with 1(1)[OF w] show ?thesis by blast
    qed
  qed
qed

lemma while_loop_preserves:
  assumes "\<And>mean t s i nm s' fw. I s \<Longrightarrow> for_body mean t s i nm = Inr (s', fw) \<Longrightarrow> I s'"
    and "I s" and "while_loop mean t s = Some (Inr s')"
  shows "I s'"
  using while_loop_invariant[where I = I and mean = mean and t = t and s = s and r = "Inr s'"] assms by blast

lemma detail_matches_step:
  assumes "detail_matches s" "for_body mean t s i nm = Inr (s', fw)"
  shows "detail_matches s'"
  using assms(2)
proof (cases rule: for_body_Inr_cases)
  case (skip tc)
  with assms(1) show ?thesis by (simp add: detail_matches_def)
next
  case (drop tc oc c')
  with assms(1) show ?thesis by (simp add: detail_matches_def record_drop_def Let_def)
qed

lemma shrunk_from_step:
  assumes "shrunk_from c0 s" "for_body mean t s i nm = Inr (s', fw)"
  shows "shrunk_from c0 s'"
  using assms(2)
proof (cases rule: for_body_Inr_cases)
  case (skip tc)
  with assms(1) show ?thesis by (simp add: shrunk_from_def)
next
  case (drop tc oc c')
  let ?d = "choose_drop nm (fst (last tc)) (nanmean mean (map snd tc)) (nanmean mean (map snd oc))"
  from drop(5) have "c' = restrict_frame (\<lambda>l. l \<noteq> ?d) (cmat s)"
    by (rule drop_col_row_restrict)
  with assms(1) have "c' = restrict_frame (\<lambda>l. l \<notin> set (drops s) \<and> l \<noteq> ?d) c0"
    by (simp add: shrunk_from_def restrict_restrict)
  moreover have "(\<lambda>l. l \<notin> set (drops s) \<and> l \<noteq> ?d) = (\<lambda>l. l \<notin> set (drops s @ [?d]))"
    by auto
  ultimately show ?thesis
    using drop(7) by (simp add: shrunk_from_def record_drop_def Let_def)
qed

lemma restrict_frame_columns [simp]:
  "columns (restrict_frame P c) = filter P (columns c)"
  "index (restrict_frame P c) = filter P (index c)"
  by (simp_all add: restrict_frame_def)

lemma choose_drop_cases:
  "choose_drop nm other a b = nm \<or> choose_drop nm other a b = other"
  by (simp add: choose_drop_def)

lemma for_body_total:
  assumes g: "good s" and nm: "nm \<in> set (columns (cmat s))"
  shows "for_body mean t s i nm =
           Inr (if int i = int (length (columns (cmat s))) - 1 then s\<lparr>finished := True\<rparr> else s,
                Continue)
         \<or> (\<exists>s'. for_body mean t s i nm = Inr (s', Break) \<and> good s' \<and>
                 length (columns (cmat s')) < length (columns (cmat s)) \<and>
                 length (drops s') = Suc (length (drops s)))"
proof -
  from g have cm: "corr_matrix (cmat s)" and n2: "2 \<le> length (columns (cmat s))"
    by (simp_all add: good_def)
  from this_col_of_corr_matrix[OF cm nm] obtain tc where
    tc: "this_col_of (cmat s) nm = Inr tc"
    and ltc: "length tc = length (columns (cmat s)) - 1"
    and stc: "set (map fst tc) = set (columns (cmat s)) - {nm}"
    by blast
  from ltc n2 have ne: "tc \<noteq> []" by auto
  show ?thesis
  proof (cases "skip_column (snd (last tc)) t (length tc)")
    case True
    from for_body_skip[OF tc ne True] show ?thesis by simp
  next
    case False
    then have "length tc \<noteq> 1" by (simp add: skip_column_def)
    with ltc ne have n3: "3 \<le> length (columns (cmat s))"
      by (cases tc) auto
    let ?other = "fst (last tc)"
    have "?other \<in> set (map fst tc)" using ne by (simp add: last_in_set)
    with stc have other: "?other \<in> set (columns (cmat s))" by blast
    from that_col_of_corr_matrix[OF cm other] obtain oc where
      oc: "that_col_of (cmat s) ?other = Inr oc" by blast
    let ?d = "choose_drop nm ?other (nanmean mean (map snd tc)) (nanmean mean (map snd oc))"
    have d: "?d \<in> set (columns (cmat s))"
      using choose_drop_cases[of nm ?other] nm other by metis
    let ?c' = "restrict_frame (\<lambda>l. l \<noteq> ?d) (cmat s)"
    have dc: "drop_col_row (cmat s) ?d = Inr ?c'"
      by (rule drop_col_row_corr_matrix[OF cm d])
    let ?s' = "record_drop s ?c' nm ?other ?d (snd (last tc)) (nanmean mean (map snd tc))
                 (nanmean mean (map snd oc))"
    have b: "for_body mean t s i nm = Inr (?s', Break)"
      by (rule for_body_drop[OF tc ne False oc dc])
    have c': "cmat ?s' = ?c'" and ds: "drops ?s' = drops s @ [?d]"
      by (simp_all add: record_drop_def Let_def)
    have dist: "distinct (columns (cmat s))" using cm by (simp add: corr_matrix_def)
    have len: "length (columns ?c') = length (columns (cmat s)) - 1"
      using length_filter_neq[OF dist d] by simp
    have "good ?s'"
      using corr_matrix_restrict[OF cm] len n3 by (simp add: good_def c')
    moreover have "length (columns (cmat ?s')) < length (columns (cmat s))"
      using len n3 by (simp add: c')
    ultimately show ?thesis using b ds by auto
  qed
qed

lemma for_loop_total:
  assumes "good s" "columns (cmat s) = pre @ xs"
  shows "\<exists>s'. for_loop mean t s (enumerate (length pre) xs) = Inr s' \<and>
           ((cmat s' = cmat s \<and> (xs \<noteq> [] \<longrightarrow> finished s')) \<or>
            (good s' \<and> length (columns (cmat s')) < length (columns (cmat s))))"
  using assms
proof (induction xs arbitrary: s pre)
  case Nil
  then show ?case by simp
next
  case (Cons x xs)
  have x: "x \<in> set (columns (cmat s))" using Cons.prems(2) by simp
  define k where "k = length pre"
  define s1 where
    "s1 = (if int k = int (length (columns (cmat s))) - 1 then s\<lparr>finished := True\<rparr> else s)"
  from for_body_total[where mean = mean and t = t and i = k, OF Cons.prems(1) x]
  consider (cont) "for_body mean t s k x = Inr (s1, Continue)"
    | (brk) s' where "for_body mean t s k x = Inr (s', Break)" "good s'"
        "length (columns (cmat s')) < length (columns (cmat s))"
    unfolding s1_def by blast
  then show ?case
  proof cases
    case cont
    have c1: "cmat s1 = cmat s" by (simp add: s1_def)
    have g1: "good s1" using Cons.prems(1) by (simp add: good_def s1_def)
    have e: "enumerate (length pre) (x # xs) = (k, x) # enumerate (Suc k) xs"
      by (simp add: k_def)
    show ?thesis
    proof (cases "xs = []")
      case True
      with Cons.prems(2) have "int k = int (length (columns (cmat s))) - 1"
        by (simp add: k_def)
      then have "finished s1" by (simp add: s1_def)
      with cont True c1 show ?thesis unfolding e by simp
    next
      case False
      have "columns (cmat s1) = (pre @ [x]) @ xs" using Cons.prems(2) c1 by simp
      from Cons.IH[OF g1 this] obtain s' where
        fl: "for_loop mean t s1 (enumerate (Suc k) xs) = Inr s'" and
        alt: "(cmat s' = cmat s1 \<and> (xs \<noteq> [] \<longrightarrow> finished s')) \<or>
            (good s' \<and> length (columns (cmat s')) < length (columns (cmat s1)))"
        by (auto simp: k_def)
      have "for_loop mean t s (enumerate (length pre) (x # xs)) = Inr s'"
        unfolding e using cont fl by simp
      with alt False c1 show ?thesis by auto
    qed
  next
    case brk
    have e: "enumerate (length pre) (x # xs) = (k, x) # enumerate (Suc k) xs"
      by (simp add: k_def)
    from brk show ?thesis unfolding e by auto
  qed
qed

lemma while_loop_total:
  assumes "good s"
  shows "\<exists>s'. while_loop mean t s = Some (Inr s')"
  using assms
proof (induction "length (columns (cmat s))" arbitrary: s rule: less_induct)
  case less
  show ?case
  proof (cases "finished s")
    case True
    then show ?thesis by (simp add: while_loop.simps)
  next
    case False
    from less.prems have ne: "columns (cmat s) \<noteq> []" by (auto simp: good_def)
    from for_loop_total[where pre = "[]" and xs = "columns (cmat s)" and t = t and mean = mean, OF less.prems]
    obtain s1 where f: "for_loop mean t s (enumerate 0 (columns (cmat s))) = Inr s1"
      and alt: "(cmat s1 = cmat s \<and> finished s1) \<or>
            (good s1 \<and> length (columns (cmat s1)) < length (columns (cmat s)))"
      using ne by auto
    have w: "while_loop mean t s = while_loop mean t s1"
      using False f by (subst while_loop.simps) simp
    from alt show ?thesis
    proof
      assume "cmat s1 = cmat s \<and> finished s1"
      then have "while_loop mean t s1 = Some (Inr s1)" by (simp add: while_loop.simps)
      with w show ?thesis by simp
    next
      assume "good s1 \<and> length (columns (cmat s1)) < length (columns (cmat s))"
      with less.hyps[of s1] w show ?thesis by simp
    qed
  qed
qed

lemma restrict_frame_all:
  assumes "corr_matrix c"
  shows "restrict_frame (\<lambda>l. True) c = c"
proof -
  from assms have i: "index c = columns c"
    and l: "length (columns c) = length (data c)"
    and r: "\<forall>col \<in> set (data c). length (index c) = length col"
    by (auto simp: corr_matrix_def list_all_iff)
  have "map (\<lambda>col. map snd (zip (index c) col)) (data c) = data c"
    using r by (simp add: map_idI)
  then show ?thesis using l by (simp add: restrict_frame_def)
qed

lemma drawn_from_step:
  assumes "drawn_from c0 s" "for_body mean t s i nm = Inr (s', fw)"
  shows "drawn_from c0 s'"
proof -
  from assms have sh: "shrunk_from c0 s'" by (auto simp: drawn_from_def intro: shrunk_from_step)
  from assms(2) show ?thesis
  proof (cases rule: for_body_Inr_cases)
    case (skip tc)
    with assms(1) sh show ?thesis by (simp add: drawn_from_def)
  next
    case (drop tc oc c')
    let ?d = "choose_drop nm (fst (last tc)) (nanmean mean (map snd tc)) (nanmean mean (map snd oc))"
    from drop(5) have "?d \<in> set (columns (cmat s))"
      by (auto simp: drop_col_row_def drop_axis1_def split: if_splits sum.splits)
    with assms(1) have "?d \<in> set (columns c0) \<and> ?d \<notin> set (drops s)"
      by (simp add: drawn_from_def shrunk_from_def)
    with assms(1) sh drop(7) show ?thesis
      by (simp add: drawn_from_def record_drop_def Let_def)
  qed
qed

lemma filter_collinearity_Inr:
  assumes "filter_collinearity mean c t = Some (Inr (c', ds, ms, zs))"
  obtains s' where
    "while_loop mean t \<lparr>cmat = c, drops = [], macor = [], corrz = [], finished = False\<rparr> = Some (Inr s')"
    "c' = cmat s'" "ds = drops s'" "ms = macor s'" "zs = corrz s'"
  using assms
  by (auto simp: filter_collinearity_def split: if_splits option.splits sum.splits)

lemmas collinearity_defs =
  filter_collinearity_def for_body_def this_col_of_def that_col_of_def getitem_def
  series_drop_def sort_values_def skip_column_def isnull_def nanmean_def finite_vals_def
  exact_mean_def choose_drop_def drop_col_row_def drop_axis1_def drop_axis0_def record_drop_def Let_def
  enumerate_eq_zip

lemma corr_abc_run:
  "filter_collinearity exact_mean corr_abc (Val (3/4)) =
     Some (Inr (\<lparr>index = [''a'', ''c''], columns = [''a'', ''c''],
                 data = [[Val 1, Val (1/2)], [Val (1/2), Val 1]]\<rparr>,
                [''b''], [Val (11/16)],
                [\<lparr>feature_x = ''b'', feature_y = ''a'', abs_corr = Val (7/8),
                  mac = Val (11/16)\<rparr>]))"
  by (simp add: while_loop.simps collinearity_defs corr_abc_def)

lemma corr_matrix_corr_abc: "corr_matrix corr_abc"
  by (simp add: corr_matrix_def corr_abc_def)

lemma nanmean_not_NaN:
  assumes "Val r \<in> set vs"
  shows "nanmean mean vs \<noteq> NaN"
proof -
  from assms have "r \<in> set (finite_vals vs)"
    by (force simp: finite_vals_def)
  then have "finite_vals vs \<noteq> []" by auto
  then show ?thesis by (simp add: nanmean_def Let_def)
qed

lemma this_col_labels:
  assumes "this_col_of c nm = Inr tc"
  shows "nm \<notin> set (map fst tc)"
proof -
  from assms obtain col where "tc = sort_values (filter (\<lambda>e. fst e \<noteq> nm) col)"
    by (auto simp: this_col_of_def series_drop_def split: sum.splits if_splits)
  then show ?thesis by (auto simp: set_sort_values)
qed

lemma corr_abc_this_col:
  "this_col_of corr_abc ''a'' = Inr [(''c'', Val (1/2)), (''b'', Val (7/8))]"
  by (simp add: collinearity_defs corr_abc_def)

lemma corr_abc_that_col:
  "that_col_of corr_abc ''b'' = Inr [(''a'', Val (7/8)), (''c'', Val (1/2))]"
  by (simp add: collinearity_defs corr_abc_def)

lemma corr_abc_body:
  "for_body exact_mean (Val (3/4)) (initial corr_abc) 0 ''a'' =
     Inr (\<lparr>cmat = \<lparr>index = [''a'', ''c''], columns = [''a'', ''c''],
                    data = [[Val 1, Val (1/2)], [Val (1/2), Val 1]]\<rparr>,
            drops = [''b''], macor = [Val (11/16)],
            corrz = [\<lparr>feature_x = ''b'', feature_y = ''a'', abs_corr = Val (7/8),
                       mac = Val (11/16)\<rparr>],
            finished = False\<rparr>, Break)"
  by (simp add: collinearity_defs corr_abc_def initial_def)


lemma corr_abc_body_eq:
  "for_body exact_mean (Val (7/8)) (initial corr_abc) 0 ''a'' =
     Inr (\<lparr>cmat = \<lparr>index = [''a'', ''c''], columns = [''a'', ''c''],
                    data = [[Val 1, Val (1/2)], [Val (1/2), Val 1]]\<rparr>,
            drops = [''b''], macor = [Val (11/16)],
            corrz = [\<lparr>feature_x = ''b'', feature_y = ''a'', abs_corr = Val (7/8),
                       mac = Val (11/16)\<rparr>],
            finished = False\<rparr>, Break)"
  by (simp add: collinearity_defs corr_abc_def initial_def)

section \<open>The claims about filter_collinearity\<close>

text \<open>
  C1, as the specification states it, fails. In \<open>corr_abc\<close> the scan meets \<open>a\<close> first; its
  largest correlation, 0.875 with \<open>b\<close>, is not below the threshold 0.75, and the mean
  absolute correlations of \<open>a\<close> and \<open>b\<close> are both 0.6875. The column dropped is \<open>b\<close>, the
  other column, and \<open>a\<close> stays.
\<close>

theorem mac_tie_drops_first_counterexample:
  "this_col_of corr_abc ''a'' = Inr [(''c'', Val (1/2)), (''b'', Val (7/8))] \<and>
   \<not> fl_less (Val (7/8)) (Val (3/4)) \<and>
   nanmean exact_mean (map snd [(''c'', Val (1/2)), (''b'', Val (7/8))]) = Val (11/16) \<and>
   that_col_of corr_abc ''b'' = Inr [(''a'', Val (7/8)), (''c'', Val (1/2))] \<and>
   nanmean exact_mean (map snd [(''a'', Val (7/8)), (''c'', Val (1/2))]) = Val (11/16) \<and>
   filter_collinearity exact_mean corr_abc (Val (3/4)) =
     Some (Inr (\<lparr>index = [''a'', ''c''], columns = [''a'', ''c''],
                 data = [[Val 1, Val (1/2)], [Val (1/2), Val 1]]\<rparr>,
                [''b''], [Val (11/16)],
                [\<lparr>feature_x = ''b'', feature_y = ''a'', abs_corr = Val (7/8),
                  mac = Val (11/16)\<rparr>])) \<and>
   ''a'' \<notin> set [''b'']"
  using corr_abc_this_col corr_abc_that_col corr_abc_run
  by (simp add: nanmean_def finite_vals_def exact_mean_def)

text \<open>
  C1, amended. When the body of the scan drops a column at \<open>nm\<close>, the other column is a
  different one, and \<open>nm\<close> is the column dropped exactly when the other column's MAC is
  NaN or the MAC of \<open>nm\<close> is strictly greater (line 397, \<open>mn_1 > mn_2\<close>). In particular,
  when the two MACs are equal the other column is dropped.
\<close>

theorem mac_tie_break:
  assumes "for_body mean t s i nm = Inr (s', Break)"
    and "this_col_of (cmat s) nm = Inr tc"
    and "that_col_of (cmat s) (fst (last tc)) = Inr oc"
  shows "fst (last tc) \<noteq> nm \<and>
         drops s' = drops s @
           [if isnull (nanmean mean (map snd oc)) \<or>
               fl_greater (nanmean mean (map snd tc)) (nanmean mean (map snd oc))
            then nm else fst (last tc)] \<and>
         (nanmean mean (map snd tc) = nanmean mean (map snd oc) \<longrightarrow>
            drops s' = drops s @ [fst (last tc)])"
proof -
  let ?mn_1 = "nanmean mean (map snd tc)" and ?mn_2 = "nanmean mean (map snd oc)"
  from assms(1) obtain tc' oc' c' where
    tc': "this_col_of (cmat s) nm = Inr tc'" and ne: "tc' \<noteq> []"
    and ns: "\<not> skip_column (snd (last tc')) t (length tc')"
    and oc': "that_col_of (cmat s) (fst (last tc')) = Inr oc'"
    and s': "s' = record_drop s c' nm (fst (last tc'))
              (choose_drop nm (fst (last tc')) (nanmean mean (map snd tc')) (nanmean mean (map snd oc')))
              (snd (last tc')) (nanmean mean (map snd tc')) (nanmean mean (map snd oc'))"
    by (cases rule: for_body_Inr_cases) auto
  from tc' assms(2) have [simp]: "tc' = tc" by simp
  from oc' assms(3) have [simp]: "oc' = oc" by simp
  from ns obtain r where "snd (last tc) = Val r"
    by (cases "snd (last tc)") (auto simp: skip_column_def isnull_def)
  moreover have "snd (last tc) \<in> set (map snd tc)" using ne by simp
  ultimately have m1: "?mn_1 \<noteq> NaN" using nanmean_not_NaN by metis
  have "fst (last tc) \<in> set (map fst tc)" using ne by simp
  with this_col_labels[OF assms(2)] have other: "fst (last tc) \<noteq> nm" by metis
  have d: "drops s' = drops s @ [choose_drop nm (fst (last tc)) ?mn_1 ?mn_2]"
    using s' by (simp add: record_drop_def Let_def)
  have c: "choose_drop nm (fst (last tc)) ?mn_1 ?mn_2 =
      (if isnull ?mn_2 \<or> fl_greater ?mn_1 ?mn_2 then nm else fst (last tc))"
    using m1 by (simp add: choose_drop_def isnull_def)
  have tie: "choose_drop nm (fst (last tc)) ?mn_1 ?mn_2 = fst (last tc)" if "?mn_1 = ?mn_2"
  proof -
    from m1 obtain a where a: "?mn_1 = Val a" by (cases ?mn_1) auto
    with that have b: "?mn_2 = Val a" by simp
    show ?thesis unfolding a b by (simp add: choose_drop_def isnull_def)
  qed
  have p2: "drops s' = drops s @
           [if isnull ?mn_2 \<or> fl_greater ?mn_1 ?mn_2 then nm else fst (last tc)]"
    using d c by simp
  have p3: "?mn_1 = ?mn_2 \<longrightarrow> drops s' = drops s @ [fst (last tc)]"
    using d tie by simp
  from other p2 p3 show ?thesis by blast
qed

text \<open>The amended C1 at \<open>corr_abc\<close>, column \<open>a\<close>, threshold 0.75.\<close>

theorem mac_tie_break_witness:
  "for_body exact_mean (Val (3/4)) (initial corr_abc) 0 ''a'' =
     Inr (\<lparr>cmat = \<lparr>index = [''a'', ''c''], columns = [''a'', ''c''],
                    data = [[Val 1, Val (1/2)], [Val (1/2), Val 1]]\<rparr>,
            drops = [''b''], macor = [Val (11/16)],
            corrz = [\<lparr>feature_x = ''b'', feature_y = ''a'', abs_corr = Val (7/8),
                       mac = Val (11/16)\<rparr>],
            finished = False\<rparr>, Break) \<and>
   this_col_of (cmat (initial corr_abc)) ''a'' = Inr [(''c'', Val (1/2)), (''b'', Val (7/8))] \<and>
   that_col_of (cmat (initial corr_abc)) ''b'' = Inr [(''a'', Val (7/8)), (''c'', Val (1/2))] \<and>
   nanmean exact_mean [Val (1/2), Val (7/8)] = nanmean exact_mean [Val (7/8), Val (1/2)] \<and>
   [''b''] = drops (initial corr_abc) @ [''b'']"
proof -
  have a: "this_col_of (cmat (initial corr_abc)) ''a'' = Inr [(''c'', Val (1/2)), (''b'', Val (7/8))]"
    using corr_abc_this_col by (simp add: initial_def)
  have b: "that_col_of (cmat (initial corr_abc)) (fst (last [(''c'', Val (1/2)), (''b'', Val (7/8))]))
             = Inr [(''a'', Val (7/8)), (''c'', Val (1/2))]"
    using corr_abc_that_col by (simp add: initial_def)
  have m: "nanmean exact_mean [Val (1/2), Val (7/8)] = nanmean exact_mean [Val (7/8), Val (1/2)]"
    by (simp add: nanmean_def finite_vals_def exact_mean_def)
  from mac_tie_break[OF corr_abc_body a b] m
  have "[''b''] = drops (initial corr_abc) @ [''b'']" by simp
  with corr_abc_body a b m show ?thesis by simp
qed



text \<open>
  C7. \<open>MulticollinearityFilterer.fit\<close> raises \<open>ValueError\<close> when fewer than two columns are
  to be evaluated, whatever the correlation computation would give, and
  \<open>filter_collinearity\<close> raises \<open>ValueError\<close> on a matrix that is not square.
\<close>

theorem validation_errors:
  "(length (cols_if_none X_columns self_cols) < 2 \<longrightarrow>
      MulticollinearityFilterer_fit mean corr X_columns self_cols threshold = Some (Inl ValueError)) \<and>
   (length (index c) \<noteq> length (columns c) \<longrightarrow>
      filter_collinearity mean c threshold = Some (Inl ValueError))"
  by (simp add: MulticollinearityFilterer_fit_def validate_cols_def filter_collinearity_def Let_def)

theorem validation_errors_witness:
  "length (cols_if_none [''a''] None) < 2 \<and>
   MulticollinearityFilterer_fit exact_mean (\<lambda>cols. corr_abc) [''a''] None (Val (3/4)) = Some (Inl ValueError) \<and>
   length (index \<lparr>index = [''a''], columns = [''a'', ''b''], data = [[Val 1], [Val (1/2)]]\<rparr>)
     \<noteq> length (columns \<lparr>index = [''a''], columns = [''a'', ''b''], data = [[Val 1], [Val (1/2)]]\<rparr>) \<and>
   filter_collinearity exact_mean \<lparr>index = [''a''], columns = [''a'', ''b''], data = [[Val 1], [Val (1/2)]]\<rparr>
     (Val (3/4)) = Some (Inl ValueError)"
  using validation_errors[where X_columns = "[''a'']" and self_cols = None and mean = exact_mean
      and corr = "\<lambda>cols. corr_abc" and threshold = "Val (3/4)"
      and c = "\<lparr>index = [''a''], columns = [''a'', ''b''], data = [[Val 1], [Val (1/2)]]\<rparr>"]
  by (simp add: cols_if_none_def)

text \<open>
  C8. On a correlation matrix with at least two columns \<open>filter_collinearity\<close> returns,
  and whenever it returns, the matrix it leaves in its argument is the matrix of the call
  without the rows and columns of the dropped names: only the surviving labels remain on
  both axes. Every dropped name is a column of the matrix of the call and is dropped once.
\<close>

theorem filter_collinearity_consumes_argument:
  assumes "corr_matrix c"
  shows "(2 \<le> length (columns c) \<longrightarrow> (\<exists>r. filter_collinearity mean c t = Some (Inr r))) \<and>
         (\<forall>c' ds ms zs. filter_collinearity mean c t = Some (Inr (c', ds, ms, zs)) \<longrightarrow>
            c' = restrict_frame (\<lambda>l. l \<notin> set ds) c \<and>
            columns c' = filter (\<lambda>l. l \<notin> set ds) (columns c) \<and>
            index c' = filter (\<lambda>l. l \<notin> set ds) (index c) \<and>
            set ds \<subseteq> set (columns c) \<and> distinct ds)"
proof (intro conjI allI impI)
  let ?s0 = "\<lparr>cmat = c, drops = [], macor = [], corrz = [], finished = False\<rparr>"
  assume "2 \<le> length (columns c)"
  with assms have "good ?s0" by (simp add: good_def)
  from while_loop_total[where t = t and mean = mean, OF this] obtain s' where "while_loop mean t ?s0 = Some (Inr s')"
    by blast
  moreover have "length (index c) = length (columns c)"
    using assms by (simp add: corr_matrix_def)
  ultimately show "\<exists>r. filter_collinearity mean c t = Some (Inr r)"
    by (simp add: filter_collinearity_def)
next
  fix c' ds ms zs
  let ?s0 = "\<lparr>cmat = c, drops = [], macor = [], corrz = [], finished = False\<rparr>"
  assume "filter_collinearity mean c t = Some (Inr (c', ds, ms, zs))"
  then obtain s' where w: "while_loop mean t ?s0 = Some (Inr s')"
    and e: "c' = cmat s'" "ds = drops s'"
    by (rule filter_collinearity_Inr)
  have "drawn_from c s'"
  proof (rule while_loop_preserves[where I = "drawn_from c", OF _ _ w])
    show "drawn_from c ?s0"
      using restrict_frame_all[OF assms] by (simp add: drawn_from_def shrunk_from_def)
  qed (rule drawn_from_step)
  then have r: "c' = restrict_frame (\<lambda>l. l \<notin> set ds) c"
    and s: "set ds \<subseteq> set (columns c)" and d: "distinct ds"
    by (simp_all add: drawn_from_def shrunk_from_def e)
  from r show "c' = restrict_frame (\<lambda>l. l \<notin> set ds) c" .
  from r show "columns c' = filter (\<lambda>l. l \<notin> set ds) (columns c)" by simp
  from r show "index c' = filter (\<lambda>l. l \<notin> set ds) (index c)" by simp
  from s show "set ds \<subseteq> set (columns c)" .
  from d show "distinct ds" .
qed

theorem filter_collinearity_consumes_argument_witness:
  "corr_matrix corr_abc \<and>
   filter_collinearity exact_mean corr_abc (Val (3/4)) =
     Some (Inr (\<lparr>index = [''a'', ''c''], columns = [''a'', ''c''],
                 data = [[Val 1, Val (1/2)], [Val (1/2), Val 1]]\<rparr>,
                [''b''], [Val (11/16)],
                [\<lparr>feature_x = ''b'', feature_y = ''a'', abs_corr = Val (7/8),
                  mac = Val (11/16)\<rparr>])) \<and>
   \<lparr>index = [''a'', ''c''], columns = [''a'', ''c''],
     data = [[Val 1, Val (1/2)], [Val (1/2), Val 1]]\<rparr>
    = restrict_frame (\<lambda>l. l \<notin> set [''b'']) corr_abc"
proof -
  from filter_collinearity_consumes_argument[where t = "Val (3/4)" and mean = exact_mean, OF corr_matrix_corr_abc]
    corr_abc_run
  have "\<lparr>index = [''a'', ''c''], columns = [''a'', ''c''],
         data = [[Val 1, Val (1/2)], [Val (1/2), Val 1]]\<rparr>
        = restrict_frame (\<lambda>l. l \<notin> set [''b'']) corr_abc"
    by blast
  with corr_matrix_corr_abc corr_abc_run show ?thesis by blast
qed

text \<open>
  C9. Whenever \<open>filter_collinearity\<close> returns, the three lists have the same length, and
  the detail record at each position holds the dropped name and the MAC found at that
  position of the other two lists.
\<close>

theorem filter_collinearity_parallel_lists:
  assumes "filter_collinearity mean c t = Some (Inr (c', ds, ms, zs))"
  shows "length ms = length ds \<and> length zs = length ds \<and>
         (\<forall>i < length ds. feature_x (zs ! i) = ds ! i \<and> mac (zs ! i) = ms ! i)"
proof -
  from assms obtain s' where
    w: "while_loop mean t \<lparr>cmat = c, drops = [], macor = [], corrz = [], finished = False\<rparr>
          = Some (Inr s')"
    and e: "ds = drops s'" "ms = macor s'" "zs = corrz s'"
    by (rule filter_collinearity_Inr)
  have "detail_matches s'"
  proof (rule while_loop_preserves[where I = detail_matches, OF _ _ w])
    show "detail_matches \<lparr>cmat = c, drops = [], macor = [], corrz = [], finished = False\<rparr>"
      by (simp add: detail_matches_def)
  qed (rule detail_matches_step)
  then have m: "map feature_x zs = ds" "map mac zs = ms"
    by (simp_all add: detail_matches_def e)
  have l: "length zs = length ds" "length ms = length ds"
    using m by (metis length_map)+
  moreover have "feature_x (zs ! i) = ds ! i \<and> mac (zs ! i) = ms ! i" if "i < length ds" for i
    using that l m by (metis nth_map)
  ultimately show ?thesis by blast
qed

theorem filter_collinearity_parallel_lists_witness:
  "filter_collinearity exact_mean corr_abc (Val (3/4)) =
     Some (Inr (\<lparr>index = [''a'', ''c''], columns = [''a'', ''c''],
                 data = [[Val 1, Val (1/2)], [Val (1/2), Val 1]]\<rparr>,
                [''b''], [Val (11/16)],
                [\<lparr>feature_x = ''b'', feature_y = ''a'', abs_corr = Val (7/8),
                  mac = Val (11/16)\<rparr>])) \<and>
   length [Val (11/16)] = length [''b''] \<and>
   feature_x ([\<lparr>feature_x = ''b'', feature_y = ''a'', abs_corr = Val (7/8),
                  mac = Val (11/16)\<rparr>] ! 0) = [''b''] ! 0"
  using filter_collinearity_parallel_lists[OF corr_abc_run] corr_abc_run by simp

section \<open>Lemmas about the linear-combination resolver\<close>

declare resolve.simps [simp del]

lemma collect_Inr:
  "collect rs = Inr vs \<Longrightarrow> length vs = length rs \<and> (\<forall>i<length rs. rs ! i = Inr (vs ! i))"
proof (induction rs arbitrary: vs rule: collect.induct)
  case 1
  then show ?case by simp
next
  case (2 e rs)
  then show ?case by simp
next
  case (3 v rs)
  from 3(2) obtain vs' where c: "collect rs = Inr vs'" and v: "vs = v # vs'"
    by (auto split: sum.splits)
  from 3(1)[OF c] v show ?case by (auto simp: nth_Cons')
qed

lemma dependency_Inr:
  assumes "dependency piv rank b i = Inr v"
  shows "v = piv ! (rank + i) # map (\<lambda>k. piv ! k) (filter (\<lambda>k. b ! i ! k \<noteq> Val 0) [0..<length (b ! i)])"
    and "rank + i < length piv" and "i < length b"
  using assms by (auto simp: dependency_def Let_def split: if_splits)

lemma enum_lc_None:
  "enum_lc QR decomp = Inr None \<longleftrightarrow>
     get_rank decomp = length (get_R decomp) \<or>
     get_coef (QR (indep_block decomp)) (dep_block decomp) = None"
  by (auto simp: enum_lc_def Let_def indep_block_def dep_block_def split: option.splits sum.splits)

lemma enum_lc_Some:
  assumes "enum_lc QR decomp = Inr (Some lc_list)"
  shows "\<exists>b. get_coef (QR (indep_block decomp)) (dep_block decomp) = Some b \<and>
           get_rank decomp \<noteq> length (get_R decomp) \<and>
           length lc_list = length (get_R decomp) - get_rank decomp \<and>
           (\<forall>i < length lc_list.
              get_rank decomp + i < length (pivot decomp) \<and> i < length b \<and>
              lc_list ! i = pivot decomp ! (get_rank decomp + i) #
                 map (\<lambda>k. pivot decomp ! k)
                   (filter (\<lambda>k. zap b ! i ! k \<noteq> Val 0) [0..<length (zap b ! i)]))"
proof -
  let ?rank = "get_rank decomp"
  from assms obtain b where b: "get_coef (QR (indep_block decomp)) (dep_block decomp) = Some b"
    and r: "?rank \<noteq> length (get_R decomp)"
    and c: "collect (map (dependency (pivot decomp) ?rank (zap b)) [0..<length (dep_block decomp)])
              = Inr lc_list"
    by (auto simp: enum_lc_def Let_def indep_block_def dep_block_def
             split: option.splits sum.splits if_splits)
  from collect_Inr[OF c] have l: "length lc_list = length (get_R decomp) - ?rank"
    and e: "\<forall>i<length lc_list. dependency (pivot decomp) ?rank (zap b) i = Inr (lc_list ! i)"
    by (auto simp: dep_block_def)
  have "?rank + i < length (pivot decomp) \<and> i < length b \<and>
        lc_list ! i = pivot decomp ! (?rank + i) #
           map (\<lambda>k. pivot decomp ! k)
             (filter (\<lambda>k. zap b ! i ! k \<noteq> Val 0) [0..<length (zap b ! i)])"
    if "i < length lc_list" for i
    using e that dependency_Inr[of "pivot decomp" ?rank "zap b" i "lc_list ! i"]
    by (simp add: zap_def)
  with b r l show ?thesis by blast
qed

lemma resolve_stop:
  assumes "enum_lc QR (QR x) = Inr None"
  shows "resolve QR x cols drop_list passes = (passes, Inr (x, cols, drop_list))"
  using assms by (simp add: resolve.simps)

lemma resolve_error:
  assumes "enum_lc QR (QR x) = Inl e"
  shows "resolve QR x cols drop_list passes = (passes, Inl e)"
  using assms by (simp add: resolve.simps)

lemma resolve_pass:
  assumes "enum_lc QR (QR x) = Inr (Some lc_list)"
    and "first_indices lc_list \<noteq> []"
    and "\<not> list_ex (\<lambda>j. length cols \<le> j) (first_indices lc_list)"
  shows "resolve QR x cols drop_list passes =
           resolve QR (np_delete x (first_indices lc_list)) (np_delete cols (first_indices lc_list))
             (drop_list @ map (\<lambda>j. cols ! j) (first_indices lc_list)) (Suc passes)"
  using assms by (subst resolve.simps) (simp add: Let_def)

lemma resolve_bad_index:
  assumes "enum_lc QR (QR x) = Inr (Some lc_list)"
    and "first_indices lc_list = [] \<or> list_ex (\<lambda>j. length cols \<le> j) (first_indices lc_list)"
  shows "resolve QR x cols drop_list passes = (passes, Inl IndexError)"
  using assms by (subst resolve.simps) (auto simp: Let_def)

lemma resolve_bounds:
  "passes \<le> fst (resolve QR x cols drop_list passes) \<and>
   fst (resolve QR x cols drop_list passes) \<le> passes + length cols \<and>
   (\<forall>x' cols' drops'. snd (resolve QR x cols drop_list passes) = Inr (x', cols', drops') \<longrightarrow>
      length cols' + fst (resolve QR x cols drop_list passes) \<le> passes + length cols \<and>
      enum_lc QR (QR x') = Inr None)"
proof (induction QR x cols drop_list passes rule: resolve.induct)
  case (1 QR x cols drop_list passes)
  show ?case
  proof (cases "enum_lc QR (QR x)")
    case (Inl e)
    then show ?thesis by (simp add: resolve_error)
  next
    case (Inr r)
    show ?thesis
    proof (cases r)
      case None
      with Inr show ?thesis by (simp add: resolve_stop)
    next
      case (Some lc_list)
      let ?bad = "first_indices lc_list"
      show ?thesis
      proof (cases "?bad = [] \<or> list_ex (\<lambda>j. length cols \<le> j) ?bad")
        case True
        with Inr Some show ?thesis by (simp add: resolve_bad_index)
      next
        case False
        then have ne: "?bad \<noteq> []" and ok: "\<not> list_ex (\<lambda>j. length cols \<le> j) ?bad" by auto
        have eq: "resolve QR x cols drop_list passes =
              resolve QR (np_delete x ?bad) (np_delete cols ?bad)
                (drop_list @ map (\<lambda>j. cols ! j) ?bad) (Suc passes)"
          using Inr Some ne ok by (simp add: resolve_pass)
        have less: "length (np_delete cols ?bad) < length cols"
          by (rule length_np_delete[OF ne ok])
        from "1.IH"[OF Inr Some refl False refl]
        have ih: "Suc passes \<le> fst (resolve QR x cols drop_list passes) \<and>
            fst (resolve QR x cols drop_list passes) \<le> Suc passes + length (np_delete cols ?bad) \<and>
            (\<forall>x' cols' drops'. snd (resolve QR x cols drop_list passes) = Inr (x', cols', drops') \<longrightarrow>
               length cols' + fst (resolve QR x cols drop_list passes)
                  \<le> Suc passes + length (np_delete cols ?bad) \<and>
               enum_lc QR (QR x') = Inr None)"
          unfolding eq[symmetric] .
        with less show ?thesis by auto
      qed
    qed
  qed
qed

lemma zap_value_nonzero:
  "zap_value v \<noteq> Val 0 \<longleftrightarrow> (case v of NaN \<Rightarrow> True | Val r \<Rightarrow> 1 / 1000000 \<le> \<bar>r\<bar>)"
  by (cases v) (auto simp: zap_value_def)

lemma zap_nth:
  assumes "i < length b" "k < length (b ! i)"
  shows "zap b ! i ! k = zap_value (b ! i ! k)"
  using assms by (simp add: zap_def)

lemma zap_length: "length (zap b) = length b" "i < length b \<Longrightarrow> length (zap b ! i) = length (b ! i)"
  by (simp_all add: zap_def)

lemma map_hd_records:
  assumes "enum_lc QR decomp = Inr (Some lc_list)"
  shows "map hd lc_list = map (\<lambda>i. pivot decomp ! (get_rank decomp + i)) [0..<length lc_list]"
proof (rule nth_equalityI)
  show "length (map hd lc_list) = length (map (\<lambda>i. pivot decomp ! (get_rank decomp + i)) [0..<length lc_list])"
    by simp
next
  fix i assume "i < length (map hd lc_list)"
  then have i: "i < length lc_list" by simp
  from enum_lc_Some[OF assms] i obtain tl where
    "lc_list ! i = pivot decomp ! (get_rank decomp + i) # tl" by blast
  with i show "map hd lc_list ! i
      = map (\<lambda>i. pivot decomp ! (get_rank decomp + i)) [0..<length lc_list] ! i"
    by simp
qed

lemma first_indices_set:
  "set (first_indices lc_list) = set (map hd lc_list)"
  by (simp add: first_indices_def)

lemma np_delete_nths: "np_delete xs bad = nths xs {j. j \<notin> set bad}"
proof -
  have "map snd (filter (\<lambda>e. fst e \<notin> set bad) (zip ns xs))
        = map fst (filter (\<lambda>p. snd p \<in> {j. j \<notin> set bad}) (zip xs ns))"
    if "length ns = length xs" for ns :: "nat list"
    using that by (induction ns xs rule: list_induct2) auto
  then show ?thesis by (simp add: np_delete_def nths_def enumerate_eq_zip)
qed

lemma distinct_first_indices:
  assumes e: "enum_lc QR decomp = Inr (Some lc_list)" and d: "distinct (pivot decomp)"
  shows "length (first_indices lc_list) = length lc_list"
proof -
  let ?f = "\<lambda>i. pivot decomp ! (get_rank decomp + i)"
  from enum_lc_Some[OF e] have r: "\<forall>i<length lc_list. get_rank decomp + i < length (pivot decomp)"
    by blast
  have "inj_on ?f (set [0..<length lc_list])"
  proof (rule inj_onI)
    fix i j assume "i \<in> set [0..<length lc_list]" "j \<in> set [0..<length lc_list]" "?f i = ?f j"
    with r d have "get_rank decomp + i = get_rank decomp + j"
      by (auto simp: nth_eq_iff_index_eq)
    then show "i = j" by simp
  qed
  then have "distinct (map ?f [0..<length lc_list])"
    by (simp add: distinct_map)
  then have "distinct (map hd lc_list)"
    using map_hd_records[OF e] by simp
  then have "length (remdups (map hd lc_list)) = length (map hd lc_list)"
    by (simp only: distinct_remdups_id)
  then show ?thesis by (simp add: first_indices_def)
qed

lemma X_tol_run:
  "enum_lc qr_spec (qr_spec (data X_tol)) = Inr (Some [[2, 0, 1]])"
  by code_simp

lemma X_tol_coef:
  "get_coef (qr_spec (indep_block (qr_spec (data X_tol)))) (dep_block (qr_spec (data X_tol)))
     = Some [[Val (1 / 1000000), Val 1]]"
  by code_simp

lemma drop_columns_nothing:
  assumes "length (data X) = length (columns X)"
  shows "drop_columns X [] = Inr X"
  using assms by (simp add: drop_columns_def)

lemma X_ab_getitems: "getitems X_ab (cols_if_none (columns X_ab) None) = Inr (data X_ab)"
  by (simp add: getitems_def cols_if_none_def X_ab_def)

lemma X_ab_rank:
  "get_rank (qr_spec (data X_ab)) = length (get_R (qr_spec (data X_ab)))"
  by code_simp




lemma X_abc_enum: "enum_lc qr_spec (qr_spec (data X_abc)) = Inr (Some [[2, 0, 1]])"
  by code_simp

lemma X_abc_pivot: "pivot (qr_spec (data X_abc)) = [0, 1, 2]"
  by code_simp

lemma length_np_delete_eq:
  assumes "length xs = length ys"
  shows "length (np_delete xs bad) = length (np_delete ys bad)"
proof -
  have "length (np_delete zs bad) = length (filter (\<lambda>j. j \<notin> set bad) [0..<length zs])" for zs :: "'c list"
    using length_filter_zip[of "[0..<length zs]" zs "\<lambda>j. j \<notin> set bad"]
    by (simp add: np_delete_def enumerate_eq_zip)
  with assms show ?thesis by metis
qed

lemma resolve_lengths:
  "length x = length cols \<Longrightarrow>
   snd (resolve QR x cols drop_list passes) = Inr (x', cols', drops') \<Longrightarrow>
   length x' = length cols'"
proof (induction QR x cols drop_list passes rule: resolve.induct)
  case (1 QR x cols drop_list passes)
  show ?case
  proof (cases "enum_lc QR (QR x)")
    case (Inl e)
    with "1.prems"(2) show ?thesis by (simp add: resolve_error)
  next
    case (Inr r)
    show ?thesis
    proof (cases r)
      case None
      with Inr "1.prems" show ?thesis by (simp add: resolve_stop)
    next
      case (Some lc_list)
      let ?bad = "first_indices lc_list"
      show ?thesis
      proof (cases "?bad = [] \<or> list_ex (\<lambda>j. length cols \<le> j) ?bad")
        case True
        with Inr Some "1.prems"(2) show ?thesis by (simp add: resolve_bad_index)
      next
        case False
        then have ne: "?bad \<noteq> []" and ok: "\<not> list_ex (\<lambda>j. length cols \<le> j) ?bad" by auto
        have eq: "resolve QR x cols drop_list passes =
              resolve QR (np_delete x ?bad) (np_delete cols ?bad)
                (drop_list @ map (\<lambda>j. cols ! j) ?bad) (Suc passes)"
          using Inr Some ne ok by (simp add: resolve_pass)
        have l: "length (np_delete x ?bad) = length (np_delete cols ?bad)"
          using "1.prems"(1) by (rule length_np_delete_eq)
        from "1.IH"[OF Inr Some refl False refl l] "1.prems"(2)
        show ?thesis unfolding eq by simp
      qed
    qed
  qed
qed

text \<open>
  The part of C4 that holds for every decomposition whose factor \<open>R\<close> has one column for
  each column of the matrix: the loop makes at most \<open>p\<close> passes, every pass removes at
  least one column, and when the loop returns, the last decomposition reports a rank equal
  to the number of retained columns unless the regression has given no coefficients.
\<close>

lemma resolver_passes_bounded:
  assumes R: "\<And>m. length (get_R (QR m)) = length m" and l: "length x = length cols"
  shows "fst (resolve QR x cols [] 0) \<le> length cols \<and>
   (\<forall>x' cols' drops'. snd (resolve QR x cols [] 0) = Inr (x', cols', drops') \<longrightarrow>
      length x' = length cols' \<and>
      length cols' + fst (resolve QR x cols [] 0) \<le> length cols \<and>
      (get_rank (QR x') = length x' \<or>
       get_rank (QR x') \<noteq> length x' \<and>
       get_coef (QR (indep_block (QR x'))) (dep_block (QR x')) = None))"
proof (intro conjI allI impI)
  show "fst (resolve QR x cols [] 0) \<le> length cols"
    using resolve_bounds[of 0 QR x cols "[]"] by simp
next
  fix x' cols' drops'
  assume r: "snd (resolve QR x cols [] 0) = Inr (x', cols', drops')"
  show "length x' = length cols'"
    using l r by (rule resolve_lengths)
  from resolve_bounds[of 0 QR x cols "[]"] r
  have b: "length cols' + fst (resolve QR x cols [] 0) \<le> length cols"
    and e: "enum_lc QR (QR x') = Inr None"
    by auto
  from b show "length cols' + fst (resolve QR x cols [] 0) \<le> length cols" .
  from e R[of x'] show "get_rank (QR x') = length x' \<or>
       get_rank (QR x') \<noteq> length x' \<and>
       get_coef (QR (indep_block (QR x'))) (dep_block (QR x')) = None"
    by (auto simp: enum_lc_None)
qed

text \<open>
  When the decomposition reports a deficient rank and the regression gives no
  coefficients, the loop returns the matrix as it is.
\<close>

lemma resolve_stops_without_coefficients:
  assumes "get_rank (QR x) \<noteq> length (get_R (QR x))"
    and "get_coef (QR (indep_block (QR x))) (dep_block (QR x)) = None"
  shows "resolve QR x cols drop_list passes = (passes, Inr (x, cols, drop_list))"
  using assms by (simp add: resolve_stop enum_lc_None)



lemma validate_cols_Inr:
  "validate_cols self_cols = Inr () \<longleftrightarrow>
     self_cols = None \<or> (\<exists>cs. self_cols = Some cs \<and> 2 \<le> length cs)"
  by (cases self_cols) (auto simp: validate_cols_def)

lemma validate_cols_Inl:
  "validate_cols self_cols \<noteq> Inr () \<Longrightarrow> validate_cols self_cols = Inl ValueError"
  by (cases self_cols) (auto simp: validate_cols_def split: if_splits)

lemma X_ab_single: "getitems X_ab (cols_if_none (columns X_ab) (Some [''a''])) = Inr [[Val 1, Val 0]]"
  by (simp add: getitems_def cols_if_none_def X_ab_def)

lemma X_ab_single_rank:
  "get_rank (qr_spec [[Val 1, Val 0]]) = 1 \<and> length (get_R (qr_spec [[Val 1, Val 0]])) = 1"
  by code_simp

lemma X_ab_single_fit: "fit_transform qr_spec X_ab (Some [''a'']) = Inl ValueError"
  by (simp add: fit_transform_def validate_cols_def)

section \<open>The claims about the linear-combination resolver\<close>

text \<open>
  C2, as the specification states it, fails in its first half. A coefficient whose absolute
  value is exactly 1e-6 is not below 1e-6, so line 179 leaves it as it is. In \<open>X_tol\<close> the
  column \<open>c\<close> is \<open>a / 1000000 + b\<close>: the coefficient of \<open>c\<close> on \<open>a\<close> is exactly 1e-6, and
  the record of \<open>c\<close> still names column 0.
\<close>

theorem zeroing_at_tolerance_counterexample:
  "zap_value (Val (1 / 1000000)) = Val (1 / 1000000) \<and>
   Val (1 / 1000000) \<noteq> Val 0 \<and>
   get_coef (qr_spec (indep_block (qr_spec (data X_tol)))) (dep_block (qr_spec (data X_tol)))
     = Some [[Val (1 / 1000000), Val 1]] \<and>
   enum_lc qr_spec (qr_spec (data X_tol)) = Inr (Some [[2, 0, 1]])"
  using X_tol_run X_tol_coef by (simp add: zap_value_def)

text \<open>
  C2, amended. The zeroing step zeroes a coefficient exactly when its absolute value is
  strictly below 1e-6: the values 1e-6 and 1.000001e-6 are both kept. Accordingly the
  record of a dependent column lists, after the column itself, the independent columns
  whose coefficient is NaN or has an absolute value of at least 1e-6.
\<close>

theorem zeroing_boundary:
  assumes "enum_lc QR decomp = Inr (Some lc_list)"
  shows "zap_value (Val (1 / 1000000)) = Val (1 / 1000000) \<and>
     zap_value (Val (1000001 / 1000000000000)) = Val (1000001 / 1000000000000) \<and>
     (\<forall>r. \<bar>r\<bar> < 1 / 1000000 \<longrightarrow> zap_value (Val r) = Val 0) \<and>
     (\<forall>r. 1 / 1000000 \<le> \<bar>r\<bar> \<longrightarrow> zap_value (Val r) = Val r) \<and>
     (\<exists>b. get_coef (QR (indep_block decomp)) (dep_block decomp) = Some b \<and>
        (\<forall>i < length lc_list. i < length b \<and>
           tl (lc_list ! i) =
             map (\<lambda>k. pivot decomp ! k)
               (filter (\<lambda>k. case b ! i ! k of NaN \<Rightarrow> True | Val r \<Rightarrow> 1 / 1000000 \<le> \<bar>r\<bar>)
                  [0..<length (b ! i)])))"
proof -
  from enum_lc_Some[OF assms] obtain b where
    b: "get_coef (QR (indep_block decomp)) (dep_block decomp) = Some b"
    and r: "\<forall>i < length lc_list. i < length b \<and>
        lc_list ! i = pivot decomp ! (get_rank decomp + i) #
          map (\<lambda>k. pivot decomp ! k)
            (filter (\<lambda>k. zap b ! i ! k \<noteq> Val 0) [0..<length (zap b ! i)])"
    by blast
  have "i < length b \<and> tl (lc_list ! i) =
             map (\<lambda>k. pivot decomp ! k)
               (filter (\<lambda>k. case b ! i ! k of NaN \<Rightarrow> True | Val r \<Rightarrow> 1 / 1000000 \<le> \<bar>r\<bar>)
                  [0..<length (b ! i)])"
    if i: "i < length lc_list" for i
  proof -
    from r i have ib: "i < length b" and
      l: "lc_list ! i = pivot decomp ! (get_rank decomp + i) #
          map (\<lambda>k. pivot decomp ! k)
            (filter (\<lambda>k. zap b ! i ! k \<noteq> Val 0) [0..<length (zap b ! i)])"
      by blast+
    have len: "length (zap b ! i) = length (b ! i)" using ib by (simp add: zap_length)
    have "filter (\<lambda>k. zap b ! i ! k \<noteq> Val 0) [0..<length (b ! i)]
        = filter (\<lambda>k. case b ! i ! k of NaN \<Rightarrow> True | Val r \<Rightarrow> 1 / 1000000 \<le> \<bar>r\<bar>)
            [0..<length (b ! i)]"
    proof (rule filter_cong[OF refl])
      fix k assume "k \<in> set [0..<length (b ! i)]"
      then have "k < length (b ! i)" by simp
      with ib show "(zap b ! i ! k \<noteq> Val 0)
          = (case b ! i ! k of NaN \<Rightarrow> True | Val r \<Rightarrow> 1 / 1000000 \<le> \<bar>r\<bar>)"
        by (simp add: zap_nth zap_value_nonzero)
    qed
    with l len ib show ?thesis by simp
  qed
  with b have e: "\<exists>b. get_coef (QR (indep_block decomp)) (dep_block decomp) = Some b \<and>
        (\<forall>i < length lc_list. i < length b \<and>
           tl (lc_list ! i) =
             map (\<lambda>k. pivot decomp ! k)
               (filter (\<lambda>k. case b ! i ! k of NaN \<Rightarrow> True | Val r \<Rightarrow> 1 / 1000000 \<le> \<bar>r\<bar>)
                  [0..<length (b ! i)]))"
    by blast
  have z: "zap_value (Val (1 / 1000000)) = Val (1 / 1000000)"
    "zap_value (Val (1000001 / 1000000000000)) = Val (1000001 / 1000000000000)"
    "\<forall>r. \<bar>r\<bar> < 1 / 1000000 \<longrightarrow> zap_value (Val r) = Val 0"
    "\<forall>r. 1 / 1000000 \<le> \<bar>r\<bar> \<longrightarrow> zap_value (Val r) = Val r"
    by (simp_all add: zap_value_def)
  from z e show ?thesis by blast
qed

text \<open>The amended C2 at \<open>X_tol\<close>.\<close>

theorem zeroing_boundary_witness:
  "enum_lc qr_spec (qr_spec (data X_tol)) = Inr (Some [[2, 0, 1]]) \<and>
   get_coef (qr_spec (indep_block (qr_spec (data X_tol)))) (dep_block (qr_spec (data X_tol)))
     = Some [[Val (1 / 1000000), Val 1]] \<and>
   zap_value (Val (1 / 1000000)) = Val (1 / 1000000) \<and>
   \<bar>1 / 2000000 :: real\<bar> < 1 / 1000000 \<and> zap_value (Val (1 / 2000000)) = Val 0 \<and>
   (1 / 1000000 :: real) \<le> \<bar>1 / 500000\<bar> \<and> zap_value (Val (1 / 500000)) = Val (1 / 500000) \<and>
   tl ([[2, 0, 1]] ! 0) = [0, 1 :: nat]"
  using zeroing_boundary[OF X_tol_run] X_tol_run X_tol_coef by simp


text \<open>
  C5. Every record built by \<open>_enum_lc\<close> starts with the pivoted index of its dependent
  column, followed by the pivoted indices of the independent columns whose coefficient,
  after the zeroing step, is not zero. The columns marked bad in the pass are exactly the
  first indices of the records; the pass removes the columns at these positions and no
  other; and when the pivot has no repeated entry there is one such column for each
  record.
\<close>

theorem dependency_records_first_indices:
  assumes "enum_lc QR (QR x) = Inr (Some lc_list)"
  shows "\<exists>b. get_coef (QR (indep_block (QR x))) (dep_block (QR x)) = Some b \<and>
     (\<forall>i < length lc_list.
        lc_list ! i = pivot (QR x) ! (get_rank (QR x) + i) #
          map (\<lambda>k. pivot (QR x) ! k)
            (filter (\<lambda>k. zap b ! i ! k \<noteq> Val 0) [0..<length (zap b ! i)])) \<and>
     set (first_indices lc_list) = set (map hd lc_list) \<and>
     set (first_indices lc_list) = {pivot (QR x) ! (get_rank (QR x) + i) |i. i < length lc_list} \<and>
     (first_indices lc_list \<noteq> [] \<and>
      \<not> list_ex (\<lambda>j. length cols \<le> j) (first_indices lc_list) \<longrightarrow>
        resolve QR x cols drop_list passes =
          resolve QR (np_delete x (first_indices lc_list)) (np_delete cols (first_indices lc_list))
            (drop_list @ map (\<lambda>j. cols ! j) (first_indices lc_list)) (Suc passes) \<and>
        np_delete cols (first_indices lc_list) = nths cols {j. j \<notin> set (first_indices lc_list)}) \<and>
     (distinct (pivot (QR x)) \<longrightarrow> length (first_indices lc_list) = length lc_list)"
proof -
  from enum_lc_Some[OF assms] obtain b where
    b: "get_coef (QR (indep_block (QR x))) (dep_block (QR x)) = Some b"
    and r: "\<forall>i < length lc_list.
        lc_list ! i = pivot (QR x) ! (get_rank (QR x) + i) #
          map (\<lambda>k. pivot (QR x) ! k)
            (filter (\<lambda>k. zap b ! i ! k \<noteq> Val 0) [0..<length (zap b ! i)])"
    by blast
  have s1: "set (first_indices lc_list) = set (map hd lc_list)"
    by (rule first_indices_set)
  have s2: "set (first_indices lc_list)
      = {pivot (QR x) ! (get_rank (QR x) + i) |i. i < length lc_list}"
    unfolding s1 map_hd_records[OF assms] by auto
  have p: "resolve QR x cols drop_list passes =
          resolve QR (np_delete x (first_indices lc_list)) (np_delete cols (first_indices lc_list))
            (drop_list @ map (\<lambda>j. cols ! j) (first_indices lc_list)) (Suc passes) \<and>
        np_delete cols (first_indices lc_list) = nths cols {j. j \<notin> set (first_indices lc_list)}"
    if "first_indices lc_list \<noteq> [] \<and>
      \<not> list_ex (\<lambda>j. length cols \<le> j) (first_indices lc_list)"
    using that resolve_pass[OF assms] np_delete_nths by blast
  have d: "distinct (pivot (QR x)) \<longrightarrow> length (first_indices lc_list) = length lc_list"
    using distinct_first_indices[OF assms] by blast
  from b r s1 s2 p d show ?thesis by blast
qed

text \<open>C5 at \<open>X_abc\<close>: one record, \<open>[2, 0, 1]\<close>, and the bad column 2.\<close>

theorem dependency_records_first_indices_witness:
  "enum_lc qr_spec (qr_spec (data X_abc)) = Inr (Some [[2, 0, 1]]) \<and>
   pivot (qr_spec (data X_abc)) = [0, 1, 2] \<and>
   distinct (pivot (qr_spec (data X_abc))) \<and>
   first_indices [[2, 0, 1]] = [2] \<and>
   \<not> list_ex (\<lambda>j. length [''a'', ''b'', ''c''] \<le> j) (first_indices [[2, 0, 1]]) \<and>
   set (first_indices [[2, 0, 1]]) = set (map hd [[2, 0, 1 :: nat]]) \<and>
   length (first_indices [[2, 0, 1]]) = length [[2, 0, 1 :: nat]] \<and>
   resolve qr_spec (data X_abc) [''a'', ''b'', ''c''] [] 0 =
     resolve qr_spec (np_delete (data X_abc) [2]) [''a'', ''b''] [''c''] 1"
proof -
  have d: "distinct (pivot (qr_spec (data X_abc)))"
    by (simp add: X_abc_pivot)
  have f: "first_indices [[2, 0, 1]] = [2]"
    by (simp add: first_indices_def)
  have n: "first_indices [[2, 0, 1]] \<noteq> [] \<and>
      \<not> list_ex (\<lambda>j. length [''a'', ''b'', ''c''] \<le> j) (first_indices [[2, 0, 1]])"
    unfolding f by simp
  from dependency_records_first_indices[OF X_abc_enum, of "[''a'', ''b'', ''c'']" "[]" 0] d n
  have "set (first_indices [[2, 0, 1]]) = set (map hd [[2, 0, 1 :: nat]]) \<and>
        length (first_indices [[2, 0, 1]]) = length [[2, 0, 1 :: nat]] \<and>
        resolve qr_spec (data X_abc) [''a'', ''b'', ''c''] [] 0 =
          resolve qr_spec (np_delete (data X_abc) (first_indices [[2, 0, 1]]))
            (np_delete [''a'', ''b'', ''c''] (first_indices [[2, 0, 1]]))
            ([] @ map (\<lambda>j. [''a'', ''b'', ''c''] ! j) (first_indices [[2, 0, 1]])) (Suc 0)"
    by blast
  moreover have "np_delete [''a'', ''b'', ''c''] [2] = [''a'', ''b'']"
    by (simp add: np_delete_def enumerate_eq_zip)
  ultimately have "set (first_indices [[2, 0, 1]]) = set (map hd [[2, 0, 1 :: nat]]) \<and>
        length (first_indices [[2, 0, 1]]) = length [[2, 0, 1 :: nat]] \<and>
        resolve qr_spec (data X_abc) [''a'', ''b'', ''c''] [] 0 =
          resolve qr_spec (np_delete (data X_abc) [2]) [''a'', ''b''] [''c''] 1"
    unfolding f by simp
  with X_abc_enum X_abc_pivot d f n show ?thesis by blast
qed

text \<open>
  C6, as the specification states it, fails. With \<open>cols = ['a']\<close> the matrix handed to the
  resolver is the single column \<open>a\<close> of \<open>X_ab\<close>, which is not zero and so of full column
  rank (the decomposition reports the rank 1 for one column); line 114 raises
  \<open>ValueError\<close> before the matrix is decomposed.
\<close>

theorem full_rank_single_column_counterexample:
  "getitems X_ab (cols_if_none (columns X_ab) (Some [''a''])) = Inr [[Val 1, Val 0]] \<and>
   get_rank (qr_spec [[Val 1, Val 0]]) = 1 \<and>
   length (get_R (qr_spec [[Val 1, Val 0]])) = 1 \<and>
   fit_transform qr_spec X_ab (Some [''a'']) = Inl ValueError"
  using X_ab_single X_ab_single_rank X_ab_single_fit by simp

text \<open>
  C6, amended. \<open>_validate_cols\<close> at line 114 passes exactly when \<open>cols\<close> is \<open>None\<close> or names
  at least two columns. When it passes, the named columns exist in the (rectangular) frame
  and their decomposition reports a rank equal to the number of columns of \<open>R\<close>,
  \<open>fit_transform\<close> returns the frame as it was, with an empty drop list. When it does not
  pass, \<open>fit_transform\<close> raises \<open>ValueError\<close>, whatever the rank.
\<close>

theorem full_rank_no_op_once_validated:
  "(validate_cols self_cols = Inr () \<longleftrightarrow>
      self_cols = None \<or> (\<exists>cs. self_cols = Some cs \<and> 2 \<le> length cs)) \<and>
   (validate_cols self_cols = Inr () \<and>
    getitems X (cols_if_none (columns X) self_cols) = Inr x \<and>
    get_rank (QR x) = length (get_R (QR x)) \<and>
    length (data X) = length (columns X) \<longrightarrow>
      fit_transform QR X self_cols = Inr (X, [])) \<and>
   (validate_cols self_cols \<noteq> Inr () \<longrightarrow> fit_transform QR X self_cols = Inl ValueError)"
proof (intro conjI impI)
  show "validate_cols self_cols = Inr () \<longleftrightarrow>
      self_cols = None \<or> (\<exists>cs. self_cols = Some cs \<and> 2 \<le> length cs)"
    by (rule validate_cols_Inr)
next
  assume a: "validate_cols self_cols = Inr () \<and>
    getitems X (cols_if_none (columns X) self_cols) = Inr x \<and>
    get_rank (QR x) = length (get_R (QR x)) \<and>
    length (data X) = length (columns X)"
  then have "enum_lc QR (QR x) = Inr None" by (simp add: enum_lc_None)
  then have "resolve QR x (cols_if_none (columns X) self_cols) [] 0
      = (0, Inr (x, cols_if_none (columns X) self_cols, []))"
    by (rule resolve_stop)
  moreover from a have "drop_columns X [] = Inr X" by (simp add: drop_columns_nothing)
  ultimately show "fit_transform QR X self_cols = Inr (X, [])"
    using a by (simp add: fit_transform_def finish_def Let_def)
next
  assume "validate_cols self_cols \<noteq> Inr ()"
  then have "validate_cols self_cols = Inl ValueError" by (rule validate_cols_Inl)
  then show "fit_transform QR X self_cols = Inl ValueError"
    by (simp add: fit_transform_def)
qed

text \<open>
  The amended C6 at \<open>X_ab\<close>: with \<open>cols = None\<close> the two independent columns come back
  unchanged; with \<open>cols = ['a']\<close> the call raises \<open>ValueError\<close>.
\<close>

theorem full_rank_no_op_once_validated_witness:
  "validate_cols None = Inr () \<and>
   getitems X_ab (cols_if_none (columns X_ab) None) = Inr (data X_ab) \<and>
   get_rank (qr_spec (data X_ab)) = length (get_R (qr_spec (data X_ab))) \<and>
   length (data X_ab) = length (columns X_ab) \<and>
   fit_transform qr_spec X_ab None = Inr (X_ab, []) \<and>
   validate_cols (Some [''a'']) \<noteq> Inr () \<and>
   fit_transform qr_spec X_ab (Some [''a'']) = Inl ValueError"
proof -
  have v: "validate_cols None = Inr ()" by (simp add: validate_cols_def)
  have l: "length (data X_ab) = length (columns X_ab)" by (simp add: X_ab_def)
  have n: "validate_cols (Some [''a'']) \<noteq> Inr ()" by (simp add: validate_cols_def)
  from full_rank_no_op_once_validated
        [where QR = qr_spec and X = X_ab and self_cols = None and x = "data X_ab"]
    v X_ab_getitems X_ab_rank l
  have a: "fit_transform qr_spec X_ab None = Inr (X_ab, [])" by blast
  from full_rank_no_op_once_validated
        [where QR = qr_spec and X = X_ab and self_cols = "Some [''a'']"] n
  have b: "fit_transform qr_spec X_ab (Some [''a'']) = Inl ValueError" by blast
  from v X_ab_getitems X_ab_rank l a n b show ?thesis by blast
qed

section \<open>The claim about the percentile selector\<close>

text \<open>
  C10. With \<open>percentile = 100\<close> the selector drops nothing, whatever the scores; with
  \<open>percentile = 0\<close> it drops every feature it was given.
\<close>

theorem select_features_extremes:
  "select_features scoreatpercentile 100 all_scores feature_names = Inr [] \<and>
   select_features scoreatpercentile 0 all_scores feature_names = Inr feature_names"
  by (simp add: select_features_def)

end
